theory Spec2Isabelle
  imports Complex_Main "HOL-Library.Multiset"
begin

section \<open>Data model\<close>

text \<open>
  The engine is \<^verbatim>\<open>src/lib/services/ai/entryRetrieval.ts\<close>. It imports the types
  \<^verbatim>\<open>Entry\<close>, \<^verbatim>\<open>EntryType\<close> and \<^verbatim>\<open>StoryEntry\<close> from \<^verbatim>\<open>$lib/types\<close>, whose
  declarations are not among the sources. The six entry types are the keys of the
  \<^verbatim>\<open>byType\<close> record literal of \<^verbatim>\<open>buildContextBlock\<close>.
\<close>

datatype EntryType = Character | Location | Item | Faction | Concept | Event

text \<open>
  Modelled from the spec: the declaration of \<^verbatim>\<open>Entry.injection.mode\<close> is missing; the
  data model gives the closed set \<^verbatim>\<open>always | auto | never\<close>. The code compares the
  mode with \<^verbatim>\<open>'always'\<close> and \<^verbatim>\<open>'never'\<close> only.
\<close>

datatype InjectionMode = Always | Auto | Never

text \<open>
  Modelled from the spec: the declaration of the faction state's \<^verbatim>\<open>status\<close> is missing;
  the data model gives \<^verbatim>\<open>neutral | allied | hostile\<close>.
\<close>

datatype FactionStatus = Neutral | Allied | Hostile

fun statusText :: "FactionStatus \<Rightarrow> string" where
  "statusText Neutral = ''neutral''"
| "statusText Allied = ''allied''"
| "statusText Hostile = ''hostile''"

text \<open>
  Modelled from the spec: the declaration of \<^verbatim>\<open>Entry.state\<close> is missing. It is a
  payload tagged by its own \<^verbatim>\<open>type\<close> field, which the code switches on; the fields
  are the ones the code reads. A field the code tests with \<^verbatim>\<open>'f' in state && state.f\<close>
  is a boolean here, an absent field being \<open>False\<close>.
\<close>

datatype EntryState =
    CharacterState (isPresent: bool) (currentDisposition: "string option")
  | LocationState (isCurrentLocation: bool)
  | ItemState (inInventory: bool)
  | FactionState (status: FactionStatus)
  | ConceptState
  | EventState

record EntryInjection =
  mode :: InjectionMode
  injectionPriority :: int

record Entry =
  entry_id :: string
  entry_type :: EntryType
  entry_name :: string
  description :: string
  injection :: EntryInjection
  state :: "EntryState option"

record RetrievedEntry =
  entry :: Entry
  tier :: nat
  priority :: int
  matchReason :: "string option"

section \<open>Tier 1: \<^verbatim>\<open>getTier1Entries\<close>\<close>

text \<open>
  The body of the loop keeps three locals, \<^verbatim>\<open>shouldInclude\<close>, \<^verbatim>\<open>priority\<close> and
  \<^verbatim>\<open>reason\<close>. \<open>checkInjectionMode\<close> is their value after the first \<^verbatim>\<open>if\<close>,
  \<open>checkState\<close> the effect of the \<^verbatim>\<open>switch\<close> on \<^verbatim>\<open>entry.state.type\<close>.
\<close>

type_synonym tier1_locals = "bool \<times> int \<times> string"

definition checkInjectionMode :: "Entry \<Rightarrow> tier1_locals" where
  "checkInjectionMode e =
     (if mode (injection e) = Always then (True, 100, ''always inject'')
      else (False, 0, ''''))"

fun checkState :: "EntryState option \<Rightarrow> tier1_locals \<Rightarrow> tier1_locals" where
  "checkState None acc = acc"
| "checkState (Some (CharacterState p d)) (inc, pr, rs) =
     (if p then (True, max pr 95, ''character present'') else (inc, pr, rs))"
| "checkState (Some (LocationState c)) (inc, pr, rs) =
     (if c then (True, max pr 100, ''current location'') else (inc, pr, rs))"
| "checkState (Some (ItemState i)) (inc, pr, rs) =
     (if i then (True, max pr 80, ''in inventory'') else (inc, pr, rs))"
| "checkState (Some (FactionState st)) (inc, pr, rs) =
     (if st = Allied \<or> st = Hostile then (True, max pr 70, ''faction '' @ statusText st)
      else (inc, pr, rs))"
| "checkState (Some ConceptState) acc = acc"
| "checkState (Some EventState) acc = acc"

definition tier1Locals :: "Entry \<Rightarrow> tier1_locals" where
  "tier1Locals e = checkState (state e) (checkInjectionMode e)"

fun getTier1Entries :: "Entry list \<Rightarrow> RetrievedEntry list" where
  "getTier1Entries [] = []"
| "getTier1Entries (e # es) =
     (case tier1Locals e of (shouldInclude, pr, reason) \<Rightarrow>
        (if shouldInclude
         then \<lparr>entry = e, tier = 1, priority = pr, matchReason = Some reason\<rparr> # getTier1Entries es
         else getTier1Entries es))"

section \<open>The JavaScript built-ins the selector uses\<close>

text \<open>
  Strings are HOL strings, a character standing for a code unit below 256. Every
  character the code itself inspects (the brackets, \<^verbatim>\<open>ID:\<close>, the class
  \<^verbatim>\<open>[a-zA-Z0-9_-]\<close>) is ASCII.
\<close>

text \<open>
  A value returned by \<^verbatim>\<open>JSON.parse\<close>. A number is represented by the text that
  \<^verbatim>\<open>String\<close> gives for it, so that no floating-point formatting is modelled.
\<close>

datatype jsvalue =
    JNull
  | JBool bool
  | JNumber string
  | JString string
  | JArray "jsvalue list"
  | JObject "(string \<times> jsvalue) list"

text \<open>
  \<^verbatim>\<open>JSON.parse\<close> itself is a parameter of the model: \<open>None\<close> stands for the
  \<^verbatim>\<open>SyntaxError\<close> it throws.
\<close>

type_synonym json_parser = "string \<Rightarrow> jsvalue option"

fun joinWith :: "string \<Rightarrow> string list \<Rightarrow> string" where
  "joinWith sep [] = []"
| "joinWith sep [x] = x"
| "joinWith sep (x # y # ys) = x @ sep @ joinWith sep (y # ys)"

text \<open>
  \<^verbatim>\<open>String(v)\<close> for a parsed value; \<open>None\<close> stands for the \<^verbatim>\<open>TypeError\<close> it throws.
  An array is its elements joined by commas, a \<^verbatim>\<open>null\<close> element giving the empty
  string. An object is \<^verbatim>\<open>[object Object]\<close>, unless it has a key \<^verbatim>\<open>toString\<close> of its
  own: that value is not callable, neither is what \<^verbatim>\<open>valueOf\<close> then finds, and the
  conversion to a primitive throws.
\<close>

fun jsString :: "jsvalue \<Rightarrow> string option"
  and jsElements :: "jsvalue list \<Rightarrow> string list option" where
  "jsString JNull = Some ''null''"
| "jsString (JBool b) = Some (if b then ''true'' else ''false'')"
| "jsString (JNumber s) = Some s"
| "jsString (JString s) = Some s"
| "jsString (JArray vs) = map_option (joinWith '','') (jsElements vs)"
| "jsString (JObject kvs) =
     (if ''toString'' \<in> set (map fst kvs) then None else Some ''[object Object]'')"
| "jsElements [] = Some []"
| "jsElements (v # vs) =
     (case (if v = JNull then Some [] else jsString v) of
        None \<Rightarrow> None
      | Some s \<Rightarrow> map_option ((#) s) (jsElements vs))"

text \<open>\<^verbatim>\<open>parsed.map(id => String(id).trim())\<close> without the \<^verbatim>\<open>trim\<close>, element by element.\<close>

fun stringOfEach :: "jsvalue list \<Rightarrow> string list option" where
  "stringOfEach [] = Some []"
| "stringOfEach (v # vs) =
     (case jsString v of
        None \<Rightarrow> None
      | Some s \<Rightarrow> map_option ((#) s) (stringOfEach vs))"

definition isJsSpace :: "char \<Rightarrow> bool" where
  "isJsSpace c \<longleftrightarrow> c \<in> set [CHR 0x09, CHR 0x0A, CHR 0x0B, CHR 0x0C, CHR 0x0D, CHR '' '', CHR 0xA0]"

definition trim :: "string \<Rightarrow> string" where
  "trim s = rev (dropWhile isJsSpace (rev (dropWhile isJsSpace s)))"

text \<open>
  \<^verbatim>\<open>content.match(/\[[\s\S]*?\]/)\<close>: the leftmost match starts at the first \<^verbatim>\<open>[\<close>
  that has a \<^verbatim>\<open>]\<close> after it, which is the first \<^verbatim>\<open>[\<close> of the text or none; the lazy
  star stops at the first \<^verbatim>\<open>]\<close> after it.
\<close>

definition matchJsonArray :: "string \<Rightarrow> string option" where
  "matchJsonArray s =
     (case dropWhile (\<lambda>c. c \<noteq> CHR ''['') s of
        [] \<Rightarrow> None
      | c # rest \<Rightarrow>
          (if CHR '']'' \<in> set rest
           then Some (c # takeWhile (\<lambda>c. c \<noteq> CHR '']'') rest @ '']'')
           else None))"

text \<open>The character class \<^verbatim>\<open>[a-zA-Z0-9_-]\<close>.\<close>

definition isIdChar :: "char \<Rightarrow> bool" where
  "isIdChar c \<longleftrightarrow>
     (let n = (of_char c :: nat) in
        (97 \<le> n \<and> n \<le> 122) \<or> (65 \<le> n \<and> n \<le> 90) \<or> (48 \<le> n \<and> n \<le> 57)
        \<or> c = CHR ''_'' \<or> c = CHR ''-'')"

text \<open>
  One attempt of \<^verbatim>\<open>/ID:([a-zA-Z0-9_-]+)/\<close> at the start of \<open>s\<close>: the captured group
  (the greedy, longest run of the class) and the text after the match.
\<close>

definition matchIdAt :: "string \<Rightarrow> (string \<times> string) option" where
  "matchIdAt s =
     (if take 3 s = ''ID:'' \<and> takeWhile isIdChar (drop 3 s) \<noteq> []
      then Some (takeWhile isIdChar (drop 3 s), dropWhile isIdChar (drop 3 s))
      else None)"

text \<open>
  \<^verbatim>\<open>content.matchAll(/ID:([a-zA-Z0-9_-]+)/g)\<close>, the captured groups in order: the
  matches do not overlap, the search resumes where the previous match ended.
\<close>

function scanIds :: "string \<Rightarrow> string list" where
  "scanIds [] = []"
| "scanIds (c # cs) =
     (case matchIdAt (c # cs) of
        Some (i, rest) \<Rightarrow> i # scanIds rest
      | None \<Rightarrow> scanIds cs)"
  by pat_completeness auto
termination
proof (relation "measure length")
  show "wf (measure length)" by simp
next
  fix c :: char and cs x2 x y
  assume "matchIdAt (c # cs) = Some x2" and "(x, y) = x2"
  then have "y = dropWhile isIdChar (drop 3 (c # cs))"
    by (auto simp: matchIdAt_def split: if_splits)
  moreover have "length (dropWhile isIdChar (drop 3 (c # cs))) \<le> length (drop 3 (c # cs))"
    by (rule length_dropWhile_le)
  ultimately show "(y, c # cs) \<in> measure length" by simp
next
  fix c :: char and cs
  show "(cs, c # cs) \<in> measure length" by simp
qed

section \<open>The provider, the configuration and the effects\<close>

text \<open>
  An awaited promise resolves with a value or rejects with an error; an \<^verbatim>\<open>await\<close> of a
  rejected promise outside a \<^verbatim>\<open>try\<close> rejects the caller's promise.
\<close>

datatype 'a promise = Resolved 'a | Rejected string

record LLMMessage =
  role :: string
  msg_content :: string

record LLMRequest =
  messages :: "LLMMessage list"
  model :: string
  temperature :: rat
  maxTokens :: nat

record LLMResponse =
  content :: string

text \<open>
  The engine reads one operation of \<^verbatim>\<open>OpenRouterProvider\<close>, \<^verbatim>\<open>generateResponse\<close>,
  and calls it at most once in a retrieval; its outcome for a request is the parameter.
\<close>

record OpenRouterProvider =
  generateResponse :: "LLMRequest \<Rightarrow> LLMResponse promise"

record EntryRetrievalConfig =
  llmThreshold :: int
  maxTier3Entries :: int
  enableLLMSelection :: bool
  recentEntriesCount :: int
  tier3Model :: string
  alwaysUseLLM :: bool

definition DEFAULT_ENTRY_RETRIEVAL_CONFIG :: EntryRetrievalConfig where
  "DEFAULT_ENTRY_RETRIEVAL_CONFIG =
     \<lparr>llmThreshold = 0, maxTier3Entries = 0, enableLLMSelection = True,
      recentEntriesCount = 5, tier3Model = ''x-ai/grok-4.1-fast'', alwaysUseLLM = True\<rparr>"

record EntryRetrievalService =
  provider :: "OpenRouterProvider option"
  config :: EntryRetrievalConfig

text \<open>
  What a retrieval does besides returning: the requests sent to the backend and the
  lines written with \<^verbatim>\<open>log\<close> (the label of each line; its data is left out).
\<close>

datatype event = BackendCall LLMRequest | Log string

text \<open>
  Of a \<^verbatim>\<open>StoryEntry\<close> the engine reads \<^verbatim>\<open>type\<close>, compared with \<^verbatim>\<open>'user_action'\<close>,
  and \<^verbatim>\<open>content\<close>.
\<close>

record StoryEntry =
  se_type :: string
  se_content :: string

record EntryRetrievalResult =
  tier1 :: "RetrievedEntry list"
  tier2 :: "RetrievedEntry list"
  tier3 :: "RetrievedEntry list"
  all :: "RetrievedEntry list"
  contextBlock :: string

section \<open>The selection prompt\<close>

definition nl :: string where
  "nl = [CHR 0x0A]"

definition dq :: string where
  "dq = [CHR 0x22]"

definition sq :: string where
  "sq = [CHR 0x27]"

fun typeUpper :: "EntryType \<Rightarrow> string" where
  "typeUpper Character = ''CHARACTER''"
| "typeUpper Location = ''LOCATION''"
| "typeUpper Item = ''ITEM''"
| "typeUpper Faction = ''FACTION''"
| "typeUpper Concept = ''CONCEPT''"
| "typeUpper Event = ''EVENT''"

definition recentLine :: "StoryEntry \<Rightarrow> string" where
  "recentLine e =
     (if se_type e = ''user_action'' then ''[ACTION]'' else ''[NARRATION]'')
     @ '': '' @ take 300 (se_content e)"

definition recentContent :: "StoryEntry list \<Rightarrow> string" where
  "recentContent es = joinWith (nl @ nl) (map recentLine (drop (length es - 5) es))"

definition entryLine :: "Entry \<Rightarrow> string" where
  "entryLine e =
     ''- ID:'' @ entry_id e @ '' | ['' @ typeUpper (entry_type e) @ ''] '' @ dq @ entry_name e
     @ dq @ '': '' @ take 200 (description e)
     @ (if length (description e) > 200 then ''...'' else [])"

definition entryList :: "Entry list \<Rightarrow> string" where
  "entryList es = joinWith nl (map entryLine es)"

definition buildPrompt :: "Entry list \<Rightarrow> string \<Rightarrow> StoryEntry list \<Rightarrow> string" where
  "buildPrompt availableEntries userInput recentStoryEntries =
     ''You are a lorebook retrieval system. Select ALL entries that are relevant to the current narrative context.''
     @ nl @ nl @ ''## Current Scene'' @ nl
     @ (if recentContent recentStoryEntries = [] then ''(Story just started)''
        else recentContent recentStoryEntries)
     @ nl @ nl @ ''## User'' @ sq @ ''s Next Action'' @ nl
     @ dq @ userInput @ dq
     @ nl @ nl @ ''## Available Lorebook Entries'' @ nl
     @ entryList availableEntries
     @ nl @ nl @ ''## Task'' @ nl
     @ ''Identify ALL entries that should be included in the narrator'' @ sq
     @ ''s context. Be INCLUSIVE - select any entry that:'' @ nl
     @ ''- Is directly mentioned or referenced'' @ nl
     @ ''- Describes a character who is present or might appear'' @ nl
     @ ''- Describes the current or nearby location'' @ nl
     @ ''- Contains relevant world-building, lore, or background information'' @ nl
     @ ''- Might inform how the narrator should respond'' @ nl
     @ ''- Has any connection to the current scene or action'' @ nl @ nl
     @ ''Return a JSON array of entry IDs (the ID: values) for ALL relevant entries.'' @ nl
     @ ''Format: ['' @ dq @ ''id1'' @ dq @ '', '' @ dq @ ''id2'' @ dq @ '', '' @ dq @ ''id3'' @ dq @ '']''
     @ nl @ nl @ ''If no entries are relevant, return: []''"

definition selectionRequest ::
  "EntryRetrievalConfig \<Rightarrow> Entry list \<Rightarrow> string \<Rightarrow> StoryEntry list \<Rightarrow> LLMRequest" where
  "selectionRequest cfg availableEntries userInput recentStoryEntries =
     \<lparr>messages = [\<lparr>role = ''user'',
                    msg_content = buildPrompt availableEntries userInput recentStoryEntries\<rparr>],
      model = tier3Model cfg, temperature = 2 / 10, maxTokens = 500\<rparr>"

section \<open>Tier 2: \<^verbatim>\<open>getLLMSelectedEntries\<close>\<close>

text \<open>
  The first parsing stage: the bracketed text found by the regular expression, parsed,
  and each element of the array turned into a trimmed string. An exception of
  \<^verbatim>\<open>JSON.parse\<close> or of \<^verbatim>\<open>String\<close> is caught by the inner \<^verbatim>\<open>try\<close> and logged, with
  \<^verbatim>\<open>selectedIds\<close> left empty; a value that is not an array is ignored.
\<close>

definition jsonStage :: "json_parser \<Rightarrow> string \<Rightarrow> string list \<times> event list" where
  "jsonStage JSON_parse text =
     (case matchJsonArray text of
        None \<Rightarrow> ([], [])
      | Some m \<Rightarrow>
          (case JSON_parse m of
             None \<Rightarrow> ([], [Log ''Failed to parse JSON array, trying line-by-line''])
           | Some (JArray vs) \<Rightarrow>
               (case stringOfEach vs of
                  None \<Rightarrow> ([], [Log ''Failed to parse JSON array, trying line-by-line''])
                | Some strs \<Rightarrow> (map trim strs, []))
           | Some _ \<Rightarrow> ([], [])))"

text \<open>The fallback runs when \<^verbatim>\<open>selectedIds.length === 0\<close> after the first stage.\<close>

definition selectedIds :: "json_parser \<Rightarrow> string \<Rightarrow> string list \<times> event list" where
  "selectedIds JSON_parse text =
     (case jsonStage JSON_parse text of (ids, lg) \<Rightarrow>
        (if length ids = 0 then (ids @ scanIds text, lg) else (ids, lg)))"

text \<open>The loop that maps the ids back to entries, in the order of \<^verbatim>\<open>availableEntries\<close>.\<close>

fun mapIdsToEntries :: "string set \<Rightarrow> Entry list \<Rightarrow> RetrievedEntry list" where
  "mapIdsToEntries idSet [] = []"
| "mapIdsToEntries idSet (e # es) =
     (if entry_id e \<in> idSet
      then \<lparr>entry = e, tier = 2, priority = 50 + injectionPriority (injection e),
            matchReason = Some ''LLM selected''\<rparr> # mapIdsToEntries idSet es
      else mapIdsToEntries idSet es)"

definition applyMax :: "EntryRetrievalConfig \<Rightarrow> RetrievedEntry list \<Rightarrow> RetrievedEntry list" where
  "applyMax cfg result =
     (if maxTier3Entries cfg > 0 then take (nat (maxTier3Entries cfg)) result else result)"

definition getLLMSelectedEntries ::
  "json_parser \<Rightarrow> EntryRetrievalService \<Rightarrow> Entry list \<Rightarrow> string \<Rightarrow> StoryEntry list
     \<Rightarrow> RetrievedEntry list promise \<times> event list" where
  "getLLMSelectedEntries JSON_parse svc availableEntries userInput recentStoryEntries =
     (case provider svc of
        None \<Rightarrow> (Resolved [], [])
      | Some p \<Rightarrow>
          (if availableEntries = [] then (Resolved [], [])
           else
             (let req = selectionRequest (config svc) availableEntries userInput recentStoryEntries
              in case generateResponse p req of
                   Rejected err \<Rightarrow>
                     (Resolved [], [BackendCall req, Log ''LLM selection failed:''])
                 | Resolved response \<Rightarrow>
                     (case selectedIds JSON_parse (content response) of (ids, lg) \<Rightarrow>
                        (Resolved (applyMax (config svc) (mapIdsToEntries (set ids) availableEntries)),
                         [BackendCall req, Log ''LLM selection response:''] @ lg
                         @ [Log ''Selected IDs:''])))))"

section \<open>Ranking and formatting\<close>

text \<open>
  \<^verbatim>\<open>Array.prototype.sort\<close> is a stable sort by the comparator it is given: \<open>x\<close> goes
  before \<open>y\<close> when \<^verbatim>\<open>cmp(x, y) <= 0\<close> and \<open>x\<close> came first. The comparator of
  \<^verbatim>\<open>getRelevantEntries\<close> is \<^verbatim>\<open>(a, b) => b.priority - a.priority\<close>.
\<close>

fun insertSorted :: "('a \<Rightarrow> 'a \<Rightarrow> int) \<Rightarrow> 'a \<Rightarrow> 'a list \<Rightarrow> 'a list" where
  "insertSorted cmp x [] = [x]"
| "insertSorted cmp x (y # ys) =
     (if cmp x y \<le> 0 then x # y # ys else y # insertSorted cmp x ys)"

definition jsSort :: "('a \<Rightarrow> 'a \<Rightarrow> int) \<Rightarrow> 'a list \<Rightarrow> 'a list" where
  "jsSort cmp xs = foldr (insertSorted cmp) xs []"

definition byPriorityDesc :: "RetrievedEntry \<Rightarrow> RetrievedEntry \<Rightarrow> int" where
  "byPriorityDesc a b = priority b - priority a"

text \<open>
  The bullet U+2022 of the section headings is outside that range; it is written as the
  three bytes of its UTF-8 form. It occurs in the block only, which nothing reads back.
\<close>

definition bullet :: string where
  "bullet = [CHR 0xE2, CHR 0x80, CHR 0xA2]"

definition entryText :: "Entry \<Rightarrow> string" where
  "entryText e = nl @ ''  - '' @ entry_name e @ '': '' @ description e"

text \<open>\<^verbatim>\<open>if (state.currentDisposition)\<close>: present and not the empty string.\<close>

definition dispositionSuffix :: "Entry \<Rightarrow> string" where
  "dispositionSuffix e =
     (case state e of
        Some (CharacterState p (Some d)) \<Rightarrow> (if d \<noteq> [] then '' ['' @ d @ '']'' else [])
      | _ \<Rightarrow> [])"

definition characterText :: "Entry \<Rightarrow> string" where
  "characterText e = entryText e @ dispositionSuffix e"

definition byType :: "EntryType \<Rightarrow> RetrievedEntry list \<Rightarrow> Entry list" where
  "byType t rs = map entry (filter (\<lambda>r. entry_type (entry r) = t) rs)"

definition blockSection :: "string \<Rightarrow> (Entry \<Rightarrow> string) \<Rightarrow> Entry list \<Rightarrow> string" where
  "blockSection heading render es =
     (if length es > 0 then nl @ nl @ bullet @ '' '' @ heading @ '':'' @ concat (map render es)
      else [])"

definition buildContextBlock ::
  "RetrievedEntry list \<Rightarrow> RetrievedEntry list \<Rightarrow> RetrievedEntry list \<Rightarrow> string" where
  "buildContextBlock t1 t2 t3 =
     (let rs = t1 @ t2 @ t3 in
        if length rs = 0 then []
        else nl @ nl @ ''[LOREBOOK CONTEXT]'' @ nl
          @ ''(CANONICAL - All information below is established lore. Do not contradict these facts.)''
          @ blockSection ''Characters'' characterText (byType Character rs)
          @ blockSection ''Locations'' entryText (byType Location rs)
          @ blockSection ''Items'' entryText (byType Item rs)
          @ blockSection ''Factions'' entryText (byType Faction rs)
          @ blockSection ''Lore'' entryText (byType Concept rs)
          @ blockSection ''Events'' entryText (byType Event rs))"

section \<open>\<^verbatim>\<open>getRelevantEntries\<close>\<close>

definition remainingEntries :: "RetrievedEntry list \<Rightarrow> Entry list \<Rightarrow> Entry list" where
  "remainingEntries t1 entries =
     filter (\<lambda>e. entry_id e \<notin> set (map (\<lambda>r. entry_id (entry r)) t1) \<and> mode (injection e) \<noteq> Never)
       entries"

definition makeResult ::
  "RetrievedEntry list \<Rightarrow> RetrievedEntry list \<Rightarrow> RetrievedEntry list \<Rightarrow> EntryRetrievalResult" where
  "makeResult t1 t2 t3 =
     \<lparr>tier1 = t1, tier2 = t2, tier3 = t3,
      all = jsSort byPriorityDesc (t1 @ t2 @ t3),
      contextBlock = buildContextBlock t1 t2 t3\<rparr>"

definition getRelevantEntries ::
  "json_parser \<Rightarrow> EntryRetrievalService \<Rightarrow> Entry list \<Rightarrow> string \<Rightarrow> StoryEntry list
     \<Rightarrow> EntryRetrievalResult promise \<times> event list" where
  "getRelevantEntries JSON_parse svc entries userInput recentStoryEntries =
     (if length entries = 0
      then (Resolved \<lparr>tier1 = [], tier2 = [], tier3 = [], all = [], contextBlock = []\<rparr>, [])
      else
        (let t1 = getTier1Entries entries;
             remaining = remainingEntries t1 entries;
             lg = [Log ''getRelevantEntries called'', Log ''Tier 1 entries:'']
         in if enableLLMSelection (config svc) \<and> length remaining > 0 \<and> provider svc \<noteq> None
            then
              (case getLLMSelectedEntries JSON_parse svc remaining userInput recentStoryEntries of
                 (Rejected err, ev) \<Rightarrow>
                   (Rejected err,
                    lg @ [Log ''Sending all remaining entries to LLM for selection:''] @ ev)
               | (Resolved llmSelected, ev) \<Rightarrow>
                   (Resolved (makeResult t1 llmSelected []),
                    lg @ [Log ''Sending all remaining entries to LLM for selection:''] @ ev
                    @ [Log ''LLM selected entries:'']))
            else (Resolved (makeResult t1 [] []), lg)))"

text \<open>The exported function: a service with the default configuration.\<close>

definition quickGetRelevantEntries ::
  "json_parser \<Rightarrow> Entry list \<Rightarrow> string \<Rightarrow> StoryEntry list \<Rightarrow> OpenRouterProvider option
     \<Rightarrow> EntryRetrievalResult promise \<times> event list" where
  "quickGetRelevantEntries JSON_parse entries userInput recentStoryEntries p =
     getRelevantEntries JSON_parse \<lparr>provider = p, config = DEFAULT_ENTRY_RETRIEVAL_CONFIG\<rparr>
       entries userInput recentStoryEntries"

text \<open>The backend requests among the effects of a retrieval.\<close>

fun backendCalls :: "event list \<Rightarrow> LLMRequest list" where
  "backendCalls [] = []"
| "backendCalls (BackendCall r # evs) = r # backendCalls evs"
| "backendCalls (Log l # evs) = backendCalls evs"

text \<open>The ids of tier 2 in the outcome of a retrieval, \<open>None\<close> for a rejection.\<close>

definition tier2Ids :: "EntryRetrievalResult promise \<times> event list \<Rightarrow> string list option" where
  "tier2Ids out =
     (case fst out of
        Resolved res \<Rightarrow> Some (map (\<lambda>r. entry_id (entry r)) (tier2 res))
      | Rejected err \<Rightarrow> None)"

section \<open>The conditions of tier 1 in the design\<close>






section \<open>Example inputs\<close>

definition exampleEntry :: "string \<Rightarrow> EntryType \<Rightarrow> InjectionMode \<Rightarrow> EntryState option \<Rightarrow> Entry" where
  "exampleEntry i t m st =
     \<lparr>entry_id = i, entry_type = t, entry_name = ''N'', description = ''D'',
      injection = \<lparr>mode = m, injectionPriority = 0\<rparr>, state = st\<rparr>"

text \<open>A backend that answers every request with the same text, and one that always fails.\<close>

definition respondWith :: "string \<Rightarrow> OpenRouterProvider" where
  "respondWith text = \<lparr>generateResponse = (\<lambda>req. Resolved \<lparr>content = text\<rparr>)\<rparr>"

definition failingProvider :: OpenRouterProvider where
  "failingProvider = \<lparr>generateResponse = (\<lambda>req. Rejected ''network error'')\<rparr>"

text \<open>
  An instance of the parser parameter for the examples: it agrees with \<^verbatim>\<open>JSON.parse\<close>
  on the text \<^verbatim>\<open>[]\<close>, the only text the examples pass to it.
\<close>

definition emptyArrayParser :: json_parser where
  "emptyArrayParser s = (if s = ''[]'' then Some (JArray []) else None)"

definition serviceWith :: "OpenRouterProvider option \<Rightarrow> int \<Rightarrow> EntryRetrievalService" where
  "serviceWith p n =
     \<lparr>provider = p, config = DEFAULT_ENTRY_RETRIEVAL_CONFIG\<lparr>maxTier3Entries := n\<rparr>\<rparr>"

definition alwaysPresentCharacter :: Entry where
  "alwaysPresentCharacter =
     exampleEntry ''c1'' Character Always (Some (CharacterState True None))"

definition neverPresentCharacter :: Entry where
  "neverPresentCharacter =
     exampleEntry ''c1'' Character Never (Some (CharacterState True None))"

definition neverCurrentLocation :: Entry where
  "neverCurrentLocation =
     exampleEntry ''l1'' Location Never (Some (LocationState True))"

definition presentCharacter :: Entry where
  "presentCharacter = exampleEntry ''c1'' Character Auto (Some (CharacterState True None))"

definition hostileFaction :: Entry where
  "hostileFaction = exampleEntry ''f1'' Faction Auto (Some (FactionState Hostile))"

definition loreConcept :: "string \<Rightarrow> int \<Rightarrow> Entry" where
  "loreConcept i n =
     (exampleEntry i Concept Auto None)\<lparr>injection := \<lparr>mode = Auto, injectionPriority = n\<rparr>\<rparr>"

definition neverConcept :: Entry where
  "neverConcept = exampleEntry ''n1'' Concept Never None"

text \<open>
  A configuration with a threshold above the number of candidates and
  \<^verbatim>\<open>alwaysUseLLM\<close> off.
\<close>

definition thresholdConfig :: EntryRetrievalConfig where
  "thresholdConfig =
     \<lparr>llmThreshold = 10, maxTier3Entries = 0, enableLLMSelection = True,
      recentEntriesCount = 5, tier3Model = ''x-ai/grok-4.1-fast'', alwaysUseLLM = False\<rparr>"

section \<open>Properties\<close>

subsection \<open>Shape of the results\<close>

lemma getTier1Entries_map_filter:
  "getTier1Entries es =
     map (\<lambda>e. \<lparr>entry = e, tier = 1, priority = fst (snd (tier1Locals e)),
                matchReason = Some (snd (snd (tier1Locals e)))\<rparr>)
       (filter (\<lambda>e. fst (tier1Locals e)) es)"
  by (induction es) (auto split: prod.splits)

lemma mapIdsToEntries_map_filter:
  "mapIdsToEntries idSet es =
     map (\<lambda>e. \<lparr>entry = e, tier = 2, priority = 50 + injectionPriority (injection e),
                matchReason = Some ''LLM selected''\<rparr>)
       (filter (\<lambda>e. entry_id e \<in> idSet) es)"
  by (induction es) auto

lemma applyMax_subset: "set (applyMax cfg xs) \<subseteq> set xs"
  by (auto simp: applyMax_def dest: in_set_takeD)

lemma makeResult_empty:
  "makeResult [] [] [] = \<lparr>tier1 = [], tier2 = [], tier3 = [], all = [], contextBlock = []\<rparr>"
  by (simp add: makeResult_def jsSort_def buildContextBlock_def)

lemma getLLMSelectedEntries_shape:
  "\<exists>ev. getLLMSelectedEntries P svc av ui rs = (Resolved [], ev) \<or>
     (\<exists>ids. getLLMSelectedEntries P svc av ui rs
             = (Resolved (applyMax (config svc) (mapIdsToEntries (set ids) av)), ev))"
  by (auto simp: getLLMSelectedEntries_def Let_def split: option.splits promise.splits prod.splits)

lemma getRelevantEntries_shape:
  "\<exists>t2 ev. getRelevantEntries P svc entries ui rs
            = (Resolved (makeResult (getTier1Entries entries) t2 []), ev)
     \<and> (t2 = [] \<or> (\<exists>ids. t2 = applyMax (config svc)
           (mapIdsToEntries (set ids) (remainingEntries (getTier1Entries entries) entries))))"
proof (cases "entries = []")
  case True
  then have "getRelevantEntries P svc entries ui rs
      = (Resolved (makeResult (getTier1Entries entries) [] []), [])"
    by (simp add: getRelevantEntries_def makeResult_empty)
  then show ?thesis by blast
next
  case False
  let ?t1 = "getTier1Entries entries"
  let ?rem = "remainingEntries ?t1 entries"
  show ?thesis
  proof (cases "enableLLMSelection (config svc) \<and> length ?rem > 0 \<and> provider svc \<noteq> None")
    case True
    from getLLMSelectedEntries_shape [of P svc ?rem ui rs]
    obtain ev where "getLLMSelectedEntries P svc ?rem ui rs = (Resolved [], ev) \<or>
       (\<exists>ids. getLLMSelectedEntries P svc ?rem ui rs
             = (Resolved (applyMax (config svc) (mapIdsToEntries (set ids) ?rem)), ev))"
      by blast
    with False True show ?thesis
      by (auto simp: getRelevantEntries_def Let_def)
  next
    case F2: False
    with False show ?thesis
      by (auto simp: getRelevantEntries_def Let_def)
  qed
qed
lemma tier1_makeResult [simp]: "tier1 (makeResult t1 t2 t3) = t1"
  and tier2_makeResult [simp]: "tier2 (makeResult t1 t2 t3) = t2"
  and tier3_makeResult [simp]: "tier3 (makeResult t1 t2 t3) = t3"
  and all_makeResult: "all (makeResult t1 t2 t3) = jsSort byPriorityDesc (t1 @ t2 @ t3)"
  and contextBlock_makeResult:
    "contextBlock (makeResult t1 t2 t3) = buildContextBlock t1 t2 t3"
  by (simp_all add: makeResult_def)

subsection \<open>Tier 1\<close>

lemma tier1Locals_always:
  assumes "mode (injection e) = Always"
  shows "fst (tier1Locals e)" and "fst (snd (tier1Locals e)) = 100"
proof -
  have "fst (tier1Locals e) \<and> fst (snd (tier1Locals e)) = 100"
  proof (cases "state e")
    case None
    with assms show ?thesis by (simp add: tier1Locals_def checkInjectionMode_def)
  next
    case (Some st)
    with assms show ?thesis
      by (cases st) (simp_all add: tier1Locals_def checkInjectionMode_def)
  qed
  then show "fst (tier1Locals e)" and "fst (snd (tier1Locals e)) = 100" by simp_all
qed

text \<open>
  C3. Every entry whose injection mode is \<^verbatim>\<open>always\<close> is in tier 1 of the result with
  priority exactly 100, whatever the configuration, the provider and its answer: the
  retrieval resolves, tier 1 holds a record of tier 1 and priority 100 for the entry,
  and no tier-1 record of the entry has another priority.
\<close>

theorem C3_always_in_tier1:
  assumes "e \<in> set entries" and "mode (injection e) = Always"
  shows "\<exists>res ev. getRelevantEntries P svc entries ui rs = (Resolved res, ev)
           \<and> (\<exists>r \<in> set (tier1 res). entry r = e \<and> tier r = 1 \<and> priority r = 100)
           \<and> (\<forall>r \<in> set (tier1 res). entry r = e \<longrightarrow> priority r = 100)"
proof -
  obtain t2 ev where res:
    "getRelevantEntries P svc entries ui rs
       = (Resolved (makeResult (getTier1Entries entries) t2 []), ev)"
    using getRelevantEntries_shape [of P svc entries ui rs] by blast
  let ?r = "\<lparr>entry = e, tier = 1, priority = fst (snd (tier1Locals e)),
              matchReason = Some (snd (snd (tier1Locals e)))\<rparr>"
  from assms have "?r \<in> set (getTier1Entries entries)"
    by (simp add: getTier1Entries_map_filter tier1Locals_always(1))
  moreover have "entry ?r = e \<and> tier ?r = 1 \<and> priority ?r = 100"
    using assms(2) by (simp add: tier1Locals_always(2))
  ultimately have one: "\<exists>r \<in> set (getTier1Entries entries). entry r = e \<and> tier r = 1 \<and> priority r = 100"
    by blast
  have every: "\<forall>r \<in> set (getTier1Entries entries). entry r = e \<longrightarrow> priority r = 100"
    using assms(2) by (auto simp: getTier1Entries_map_filter tier1Locals_always(2))
  from res one every show ?thesis by simp
qed

theorem C3_always_in_tier1_witness:
  "alwaysPresentCharacter \<in> set [alwaysPresentCharacter]
   \<and> mode (injection alwaysPresentCharacter) = Always
   \<and> (\<exists>res ev. getRelevantEntries emptyArrayParser (serviceWith (Some failingProvider) 0)
          [alwaysPresentCharacter] [] [] = (Resolved res, ev)
        \<and> (\<exists>r \<in> set (tier1 res). entry r = alwaysPresentCharacter \<and> tier r = 1 \<and> priority r = 100)
        \<and> (\<forall>r \<in> set (tier1 res). entry r = alwaysPresentCharacter \<longrightarrow> priority r = 100))"
proof -
  have h1: "alwaysPresentCharacter \<in> set [alwaysPresentCharacter]" by simp
  have h2: "mode (injection alwaysPresentCharacter) = Always"
    by (simp add: alwaysPresentCharacter_def exampleEntry_def)
  from h1 h2 C3_always_in_tier1 [OF h1 h2] show ?thesis by blast
qed





subsection \<open>The retrieval with a given backend outcome\<close>

lemma getRelevantEntries_no_call:
  assumes "\<not> (enableLLMSelection (config svc)
             \<and> remainingEntries (getTier1Entries entries) entries \<noteq> [] \<and> provider svc \<noteq> None)"
  shows "\<exists>ev. getRelevantEntries P svc entries ui rs
               = (Resolved (makeResult (getTier1Entries entries) [] []), ev)
             \<and> backendCalls ev = []"
proof (cases "entries = []")
  case True
  then show ?thesis by (simp add: getRelevantEntries_def makeResult_empty)
next
  case False
  with assms show ?thesis by (auto simp: getRelevantEntries_def Let_def)
qed

lemma getRelevantEntries_rejected:
  assumes "enableLLMSelection (config svc)"
    and "remainingEntries (getTier1Entries entries) entries \<noteq> []"
    and "provider svc = Some p"
    and "generateResponse p (selectionRequest (config svc)
           (remainingEntries (getTier1Entries entries) entries) ui rs) = Rejected err"
  shows "\<exists>ev. getRelevantEntries P svc entries ui rs
               = (Resolved (makeResult (getTier1Entries entries) [] []), ev)
             \<and> length (backendCalls ev) = 1 \<and> Log ''LLM selection failed:'' \<in> set ev"
proof -
  from assms(2) have "entries \<noteq> []" by (auto simp: remainingEntries_def)
  with assms show ?thesis
    by (simp add: getRelevantEntries_def getLLMSelectedEntries_def Let_def)
qed

lemma backendCalls_append: "backendCalls (xs @ ys) = backendCalls xs @ backendCalls ys"
  by (induction xs rule: backendCalls.induct) simp_all

lemma backendCalls_logs: "backendCalls (snd (selectedIds P text)) = []"
  by (auto simp: selectedIds_def jsonStage_def split: option.splits jsvalue.splits prod.splits)

lemma getRelevantEntries_responded:
  assumes "enableLLMSelection (config svc)"
    and "remainingEntries (getTier1Entries entries) entries \<noteq> []"
    and "provider svc = Some p"
    and "generateResponse p (selectionRequest (config svc)
           (remainingEntries (getTier1Entries entries) entries) ui rs) = Resolved response"
  shows "\<exists>ev. getRelevantEntries P svc entries ui rs
               = (Resolved (makeResult (getTier1Entries entries)
                    (applyMax (config svc)
                       (mapIdsToEntries (set (fst (selectedIds P (content response))))
                          (remainingEntries (getTier1Entries entries) entries))) []), ev)
             \<and> length (backendCalls ev) = 1"
proof -
  from assms(2) have "entries \<noteq> []" by (auto simp: remainingEntries_def)
  moreover obtain ids lg where sel: "selectedIds P (content response) = (ids, lg)"
    by (cases "selectedIds P (content response)")
  moreover from sel have "backendCalls lg = []"
    using backendCalls_logs [of P "content response"] by simp
  ultimately show ?thesis using assms
    by (simp add: getRelevantEntries_def getLLMSelectedEntries_def Let_def backendCalls_append)
qed

subsection \<open>Entries of mode \<^verbatim>\<open>never\<close>\<close>

text \<open>
  C1. The claim is that an entry of mode \<^verbatim>\<open>never\<close> is in no tier and not in the context
  block. \<open>getTier1Entries\<close> does not read the mode \<^verbatim>\<open>never\<close>: for the entries below, a
  present character and a current location, both of mode \<^verbatim>\<open>never\<close>, tier 1 holds both
  and the block renders both, whatever the service.
\<close>

theorem C1_never_entries_in_tier1:
  "\<exists>res ev. getRelevantEntries P svc [neverPresentCharacter, neverCurrentLocation] ui rs
              = (Resolved res, ev)
     \<and> tier1 res =
         [\<lparr>entry = neverPresentCharacter, tier = 1, priority = 95,
            matchReason = Some ''character present''\<rparr>,
          \<lparr>entry = neverCurrentLocation, tier = 1, priority = 100,
            matchReason = Some ''current location''\<rparr>]
     \<and> contextBlock res =
         nl @ nl @ ''[LOREBOOK CONTEXT]'' @ nl
         @ ''(CANONICAL - All information below is established lore. Do not contradict these facts.)''
         @ nl @ nl @ bullet @ '' Characters:'' @ nl @ ''  - N: D''
         @ nl @ nl @ bullet @ '' Locations:'' @ nl @ ''  - N: D''"
proof -
  let ?es = "[neverPresentCharacter, neverCurrentLocation]"
  have t1: "getTier1Entries ?es =
         [\<lparr>entry = neverPresentCharacter, tier = 1, priority = 95,
            matchReason = Some ''character present''\<rparr>,
          \<lparr>entry = neverCurrentLocation, tier = 1, priority = 100,
            matchReason = Some ''current location''\<rparr>]"
    by (simp add: neverPresentCharacter_def neverCurrentLocation_def exampleEntry_def
        tier1Locals_def checkInjectionMode_def)
  have "remainingEntries (getTier1Entries ?es) ?es = []"
    by (simp add: remainingEntries_def neverPresentCharacter_def neverCurrentLocation_def
        exampleEntry_def)
  then obtain ev where
    "getRelevantEntries P svc ?es ui rs = (Resolved (makeResult (getTier1Entries ?es) [] []), ev)"
    using getRelevantEntries_no_call [of svc ?es P ui rs] by auto
  moreover have "buildContextBlock (getTier1Entries ?es) [] [] =
         nl @ nl @ ''[LOREBOOK CONTEXT]'' @ nl
         @ ''(CANONICAL - All information below is established lore. Do not contradict these facts.)''
         @ nl @ nl @ bullet @ '' Characters:'' @ nl @ ''  - N: D''
         @ nl @ nl @ bullet @ '' Locations:'' @ nl @ ''  - N: D''"
    unfolding t1
    by (simp add: buildContextBlock_def blockSection_def byType_def characterText_def
        entryText_def dispositionSuffix_def neverPresentCharacter_def
        neverCurrentLocation_def exampleEntry_def)
  ultimately show ?thesis using t1 by (simp add: contextBlock_makeResult)
qed

subsection \<open>Failure of the backend\<close>

text \<open>
  C2. When the provider's \<^verbatim>\<open>generateResponse\<close> rejects the request of the retrieval,
  \<open>getRelevantEntries\<close> resolves, tier 2 of its result is empty, and if a request was
  sent, the failure is among the logged lines.
\<close>

theorem C2_backend_failure_degrades:
  assumes "provider svc = Some p"
    and "generateResponse p (selectionRequest (config svc)
           (remainingEntries (getTier1Entries entries) entries) ui rs) = Rejected err"
  shows "\<exists>res ev. getRelevantEntries P svc entries ui rs = (Resolved res, ev)
           \<and> tier2 res = []
           \<and> (backendCalls ev \<noteq> [] \<longrightarrow> Log ''LLM selection failed:'' \<in> set ev)"
proof (cases "enableLLMSelection (config svc)
             \<and> remainingEntries (getTier1Entries entries) entries \<noteq> []")
  case True
  with assms getRelevantEntries_rejected [of svc entries p ui rs err P]
  show ?thesis by auto
next
  case False
  with getRelevantEntries_no_call [of svc entries P ui rs]
  show ?thesis by auto
qed

theorem C2_backend_failure_degrades_witness:
  "provider (serviceWith (Some failingProvider) 0) = Some failingProvider
   \<and> generateResponse failingProvider (selectionRequest (config (serviceWith (Some failingProvider) 0))
        (remainingEntries (getTier1Entries [loreConcept ''x1'' 0]) [loreConcept ''x1'' 0]) [] [])
       = Rejected ''network error''
   \<and> (\<exists>res ev. getRelevantEntries emptyArrayParser (serviceWith (Some failingProvider) 0)
          [loreConcept ''x1'' 0] [] [] = (Resolved res, ev)
        \<and> tier2 res = []
        \<and> (backendCalls ev \<noteq> [] \<longrightarrow> Log ''LLM selection failed:'' \<in> set ev))"
proof -
  have h1: "provider (serviceWith (Some failingProvider) 0) = Some failingProvider"
    by (simp add: serviceWith_def)
  have h2: "generateResponse failingProvider (selectionRequest (config (serviceWith (Some failingProvider) 0))
        (remainingEntries (getTier1Entries [loreConcept ''x1'' 0]) [loreConcept ''x1'' 0]) [] [])
       = Rejected ''network error''"
    by (simp add: failingProvider_def)
  from h1 h2 C2_backend_failure_degrades [OF h1 h2] show ?thesis by blast
qed

subsection \<open>Evaluation with a backend that answers a fixed text\<close>

lemma getRelevantEntries_respondWith:
  assumes "getTier1Entries entries = t1"
    and "remainingEntries t1 entries = rem"
    and "rem \<noteq> []"
    and "fst (selectedIds P text) = ids"
    and "enableLLMSelection cfg"
  shows "\<exists>ev. getRelevantEntries P \<lparr>provider = Some (respondWith text), config = cfg\<rparr>
                 entries ui rs
               = (Resolved (makeResult t1 (applyMax cfg (mapIdsToEntries (set ids) rem)) []), ev)
             \<and> length (backendCalls ev) = 1"
proof -
  let ?svc = "\<lparr>provider = Some (respondWith text), config = cfg\<rparr>"
  have p1: "enableLLMSelection (config ?svc)" using assms(5) by simp
  have p2: "remainingEntries (getTier1Entries entries) entries \<noteq> []"
    using assms(1-3) by simp
  have p3: "provider ?svc = Some (respondWith text)" by simp
  have p4: "generateResponse (respondWith text) (selectionRequest (config ?svc)
           (remainingEntries (getTier1Entries entries) entries) ui rs)
          = Resolved \<lparr>content = text\<rparr>"
    by (simp add: respondWith_def)
  from getRelevantEntries_responded [OF p1 p2 p3 p4, of P] assms(1,2,4)
  show ?thesis by simp
qed

subsection \<open>Ranking\<close>

lemma insertSorted_insort_key:
  "insertSorted byPriorityDesc x ys = insort_key (\<lambda>r. - priority r) x ys"
  by (induction ys) (simp_all add: byPriorityDesc_def)

lemma jsSort_sort_key: "jsSort byPriorityDesc xs = sort_key (\<lambda>r. - priority r) xs"
proof -
  have "insertSorted byPriorityDesc = insort_key (\<lambda>r. - priority r)"
    by (intro ext) (rule insertSorted_insort_key)
  then show ?thesis by (simp add: jsSort_def sort_key_def)
qed

lemma sort_key_descending:
  "sorted_wrt (\<lambda>a b. priority b \<le> priority a) (sort_key (\<lambda>r. - priority r) xs)"
proof -
  have "sorted (map (\<lambda>r. - priority r) (sort_key (\<lambda>r. - priority r) xs))"
    by (rule sorted_sort_key)
  then show ?thesis by (simp add: sorted_map)
qed

text \<open>
  C9. The field \<^verbatim>\<open>all\<close> of the result is the concatenation of the three tiers sorted
  stably by descending priority: it is the stable insertion sort of the concatenation
  on the key \<open>- priority\<close>; hence it is a permutation of the concatenation, its
  priorities descend, and the records of one priority keep the order they have in the
  concatenation (tier 1 before tier 2 before tier 3, insertion order within a tier).
\<close>

theorem C9_all_stably_sorted:
  "\<exists>res ev. getRelevantEntries P svc entries ui rs = (Resolved res, ev)
     \<and> all res = sort_key (\<lambda>r. - priority r) (tier1 res @ tier2 res @ tier3 res)
     \<and> mset (all res) = mset (tier1 res @ tier2 res @ tier3 res)
     \<and> sorted_wrt (\<lambda>a b. priority b \<le> priority a) (all res)
     \<and> (\<forall>k. filter (\<lambda>r. priority r = k) (all res)
              = filter (\<lambda>r. priority r = k) (tier1 res @ tier2 res @ tier3 res))"
proof -
  obtain t2 ev where res:
    "getRelevantEntries P svc entries ui rs
       = (Resolved (makeResult (getTier1Entries entries) t2 []), ev)"
    using getRelevantEntries_shape [of P svc entries ui rs] by blast
  let ?res = "makeResult (getTier1Entries entries) t2 []"
  let ?cat = "tier1 ?res @ tier2 ?res @ tier3 ?res"
  have a: "all ?res = sort_key (\<lambda>r. - priority r) ?cat"
    by (simp add: all_makeResult jsSort_sort_key)
  have b: "mset (all ?res) = mset ?cat"
    unfolding a by (rule mset_sort)
  have c: "sorted_wrt (\<lambda>a b. priority b \<le> priority a) (all ?res)"
    unfolding a by (rule sort_key_descending)
  have d: "filter (\<lambda>r. priority r = k) (all ?res) = filter (\<lambda>r. priority r = k) ?cat" for k
  proof -
    have "filter (\<lambda>r. - priority r = - k) (sort_key (\<lambda>r. - priority r) ?cat)
            = filter (\<lambda>r. - priority r = - k) ?cat"
      by (rule sort_key_stable)
    then show ?thesis unfolding a by simp
  qed
  from res a b c d show ?thesis by blast
qed

theorem C9_all_stably_sorted_witness:
  "\<exists>res ev. getRelevantEntries emptyArrayParser (serviceWith (Some (respondWith ''ID:x1'')) 0)
        [hostileFaction, presentCharacter, loreConcept ''x1'' 45] [] [] = (Resolved res, ev)
     \<and> map (\<lambda>r. (entry_id (entry r), tier r, priority r)) (tier1 res @ tier2 res @ tier3 res)
         = [(''f1'', 1, 70), (''c1'', 1, 95), (''x1'', 2, 95)]
     \<and> map (\<lambda>r. (entry_id (entry r), tier r, priority r)) (all res)
         = [(''c1'', 1, 95), (''x1'', 2, 95), (''f1'', 1, 70)]"
proof -
  let ?svc = "serviceWith (Some (respondWith ''ID:x1'')) 0"
  let ?es = "[hostileFaction, presentCharacter, loreConcept ''x1'' 45]"
  from C9_all_stably_sorted [of emptyArrayParser ?svc ?es "[]" "[]"]
  obtain res ev where
    res: "getRelevantEntries emptyArrayParser ?svc ?es [] [] = (Resolved res, ev)"
    and srt: "all res = sort_key (\<lambda>r. - priority r) (tier1 res @ tier2 res @ tier3 res)"
    by blast
  have t1: "getTier1Entries ?es =
      [\<lparr>entry = hostileFaction, tier = 1, priority = 70, matchReason = Some ''faction hostile''\<rparr>,
       \<lparr>entry = presentCharacter, tier = 1, priority = 95, matchReason = Some ''character present''\<rparr>]"
    by (simp add: hostileFaction_def presentCharacter_def loreConcept_def exampleEntry_def
        tier1Locals_def checkInjectionMode_def)
  have rem: "remainingEntries (getTier1Entries ?es) ?es = [loreConcept ''x1'' 45]"
    unfolding t1
    by (simp add: remainingEntries_def hostileFaction_def presentCharacter_def
        loreConcept_def exampleEntry_def)
  have ids: "fst (selectedIds emptyArrayParser ''ID:x1'') = [''x1'']"
    by (simp add: selectedIds_def jsonStage_def matchJsonArray_def matchIdAt_def isIdChar_def)
  have "\<exists>ev. getRelevantEntries emptyArrayParser ?svc ?es [] []
          = (Resolved (makeResult (getTier1Entries ?es)
               (applyMax (DEFAULT_ENTRY_RETRIEVAL_CONFIG\<lparr>maxTier3Entries := 0\<rparr>)
                  (mapIdsToEntries (set [''x1'']) [loreConcept ''x1'' 45])) []), ev)
          \<and> length (backendCalls ev) = 1"
    unfolding serviceWith_def
    by (rule getRelevantEntries_respondWith [OF refl rem _ ids])
      (simp_all add: DEFAULT_ENTRY_RETRIEVAL_CONFIG_def)
  with res have "res = makeResult (getTier1Entries ?es)
               (applyMax (DEFAULT_ENTRY_RETRIEVAL_CONFIG\<lparr>maxTier3Entries := 0\<rparr>)
                  (mapIdsToEntries (set [''x1'']) [loreConcept ''x1'' 45])) []"
    by auto
  then have tiers: "tier1 res = getTier1Entries ?es"
    "tier2 res = [\<lparr>entry = loreConcept ''x1'' 45, tier = 2, priority = 95,
                   matchReason = Some ''LLM selected''\<rparr>]"
    "tier3 res = []"
    by (simp_all add: applyMax_def DEFAULT_ENTRY_RETRIEVAL_CONFIG_def
        loreConcept_def exampleEntry_def)
  have cat: "map (\<lambda>r. (entry_id (entry r), tier r, priority r)) (tier1 res @ tier2 res @ tier3 res)
         = [(''f1'', 1, 70), (''c1'', 1, 95), (''x1'', 2, 95)]"
    unfolding tiers t1
    by (simp add: hostileFaction_def presentCharacter_def loreConcept_def exampleEntry_def)
  have srtd: "map (\<lambda>r. (entry_id (entry r), tier r, priority r)) (all res)
         = [(''c1'', 1, 95), (''x1'', 2, 95), (''f1'', 1, 70)]"
    unfolding srt tiers t1
    by (simp add: hostileFaction_def presentCharacter_def loreConcept_def exampleEntry_def)
  show ?thesis
    by (rule exI [of _ res], rule exI [of _ ev]) (simp only: res cat srtd)
qed

subsection \<open>Tier 2 and the candidate set\<close>

lemma remainingEntries_member:
  "e \<in> set (remainingEntries t1 entries) \<longleftrightarrow>
     e \<in> set entries \<and> mode (injection e) \<noteq> Never
     \<and> entry_id e \<notin> (\<lambda>r. entry_id (entry r)) ` set t1"
  by (auto simp: remainingEntries_def)

lemma entry_applyMax_mapIdsToEntries:
  assumes "r \<in> set (applyMax cfg (mapIdsToEntries idSet es))"
  shows "entry r \<in> set es" and "entry_id (entry r) \<in> idSet"
proof -
  from assms applyMax_subset have "r \<in> set (mapIdsToEntries idSet es)" by blast
  then show "entry r \<in> set es" and "entry_id (entry r) \<in> idSet"
    by (auto simp: mapIdsToEntries_map_filter)
qed

text \<open>
  C8. Whatever the backend answers, the retrieval resolves and every tier-2 record is of
  a candidate: an entry of the input that is not of mode \<^verbatim>\<open>never\<close> and whose id is not
  the id of a tier-1 record. Ids outside the candidates select nothing, and no id is in
  both tier 1 and tier 2.
\<close>

theorem C8_tier2_within_candidates:
  "\<exists>res ev. getRelevantEntries P svc entries ui rs = (Resolved res, ev)
     \<and> (\<forall>r \<in> set (tier2 res).
           entry r \<in> set entries \<and> mode (injection (entry r)) \<noteq> Never
           \<and> entry_id (entry r) \<notin> (\<lambda>r. entry_id (entry r)) ` set (tier1 res))
     \<and> (\<lambda>r. entry_id (entry r)) ` set (tier1 res)
         \<inter> (\<lambda>r. entry_id (entry r)) ` set (tier2 res) = {}"
proof -
  let ?t1 = "getTier1Entries entries"
  obtain t2 ev where res:
    "getRelevantEntries P svc entries ui rs = (Resolved (makeResult ?t1 t2 []), ev)"
    and t2: "t2 = [] \<or> (\<exists>ids. t2 = applyMax (config svc)
           (mapIdsToEntries (set ids) (remainingEntries ?t1 entries)))"
    using getRelevantEntries_shape [of P svc entries ui rs] by blast
  have cand: "entry r \<in> set (remainingEntries ?t1 entries)" if r: "r \<in> set t2" for r
  proof -
    from r have "t2 \<noteq> []" by auto
    with t2 obtain ids where "t2 = applyMax (config svc)
           (mapIdsToEntries (set ids) (remainingEntries ?t1 entries))"
      by blast
    with r show ?thesis by (simp add: entry_applyMax_mapIdsToEntries(1))
  qed
  let ?res = "makeResult ?t1 t2 []"
  have a: "\<forall>r \<in> set (tier2 ?res).
           entry r \<in> set entries \<and> mode (injection (entry r)) \<noteq> Never
           \<and> entry_id (entry r) \<notin> (\<lambda>r. entry_id (entry r)) ` set (tier1 ?res)"
  proof
    fix r assume "r \<in> set (tier2 ?res)"
    then have "entry r \<in> set (remainingEntries ?t1 entries)" by (simp add: cand)
    then show "entry r \<in> set entries \<and> mode (injection (entry r)) \<noteq> Never
           \<and> entry_id (entry r) \<notin> (\<lambda>r. entry_id (entry r)) ` set (tier1 ?res)"
      by (simp add: remainingEntries_member)
  qed
  have b: "(\<lambda>r. entry_id (entry r)) ` set (tier1 ?res)
             \<inter> (\<lambda>r. entry_id (entry r)) ` set (tier2 ?res) = {}"
  proof -
    have "i \<notin> (\<lambda>r. entry_id (entry r)) ` set (tier1 ?res)"
      if "i \<in> (\<lambda>r. entry_id (entry r)) ` set (tier2 ?res)" for i
    proof -
      from that obtain r where "r \<in> set (tier2 ?res)" and "i = entry_id (entry r)"
        by (rule imageE)
      with a show ?thesis by simp
    qed
    then show ?thesis by (auto simp: disjoint_iff)
  qed
  from res a b show ?thesis
    by (intro exI [of _ ?res] exI [of _ ev] conjI)
qed

theorem C8_tier2_within_candidates_witness:
  "\<exists>res ev. getRelevantEntries emptyArrayParser
        (serviceWith (Some (respondWith ''ID:c1 ID:x1 ID:n1 ID:zz'')) 0)
        [presentCharacter, loreConcept ''x1'' 0, neverConcept] [] [] = (Resolved res, ev)
     \<and> map (\<lambda>r. entry_id (entry r)) (tier1 res) = [''c1'']
     \<and> map (\<lambda>r. entry_id (entry r)) (tier2 res) = [''x1'']
     \<and> (\<lambda>r. entry_id (entry r)) ` set (tier1 res)
         \<inter> (\<lambda>r. entry_id (entry r)) ` set (tier2 res) = {}"
proof -
  let ?cfg = "DEFAULT_ENTRY_RETRIEVAL_CONFIG\<lparr>maxTier3Entries := 0\<rparr>"
  let ?es = "[presentCharacter, loreConcept ''x1'' 0, neverConcept]"
  let ?t1 = "[\<lparr>entry = presentCharacter, tier = 1, priority = 95,
               matchReason = Some ''character present''\<rparr>]"
  from C8_tier2_within_candidates [of emptyArrayParser
      "serviceWith (Some (respondWith ''ID:c1 ID:x1 ID:n1 ID:zz'')) 0" ?es "[]" "[]"]
  obtain res ev where
    res: "getRelevantEntries emptyArrayParser
        (serviceWith (Some (respondWith ''ID:c1 ID:x1 ID:n1 ID:zz'')) 0) ?es [] []
        = (Resolved res, ev)"
    and disj: "(\<lambda>r. entry_id (entry r)) ` set (tier1 res)
         \<inter> (\<lambda>r. entry_id (entry r)) ` set (tier2 res) = {}"
    by blast
  have t1: "getTier1Entries ?es = ?t1"
    by (simp add: presentCharacter_def loreConcept_def neverConcept_def exampleEntry_def
        tier1Locals_def checkInjectionMode_def)
  have rem: "remainingEntries ?t1 ?es = [loreConcept ''x1'' 0]"
    by (simp add: remainingEntries_def presentCharacter_def loreConcept_def neverConcept_def
        exampleEntry_def)
  have ids: "fst (selectedIds emptyArrayParser ''ID:c1 ID:x1 ID:n1 ID:zz'')
               = [''c1'', ''x1'', ''n1'', ''zz'']"
    by (simp add: selectedIds_def jsonStage_def matchJsonArray_def matchIdAt_def isIdChar_def)
  have "\<exists>ev. getRelevantEntries emptyArrayParser
        (serviceWith (Some (respondWith ''ID:c1 ID:x1 ID:n1 ID:zz'')) 0) ?es [] []
          = (Resolved (makeResult ?t1 (applyMax ?cfg
               (mapIdsToEntries (set [''c1'', ''x1'', ''n1'', ''zz'']) [loreConcept ''x1'' 0])) []), ev)
          \<and> length (backendCalls ev) = 1"
    unfolding serviceWith_def
    by (rule getRelevantEntries_respondWith [OF t1 rem _ ids])
      (simp_all add: DEFAULT_ENTRY_RETRIEVAL_CONFIG_def)
  with res have "res = makeResult ?t1 (applyMax ?cfg
               (mapIdsToEntries (set [''c1'', ''x1'', ''n1'', ''zz'']) [loreConcept ''x1'' 0])) []"
    by auto
  then have tiers: "map (\<lambda>r. entry_id (entry r)) (tier1 res) = [''c1'']"
    "map (\<lambda>r. entry_id (entry r)) (tier2 res) = [''x1'']"
    by (simp_all add: applyMax_def DEFAULT_ENTRY_RETRIEVAL_CONFIG_def presentCharacter_def
        loreConcept_def exampleEntry_def)
  show ?thesis
    by (rule exI [of _ res], rule exI [of _ ev]) (simp only: res tiers disj)
qed

subsection \<open>When the backend is called\<close>

lemma backend_call_condition:
  "\<exists>res ev. getRelevantEntries P svc entries ui rs = (Resolved res, ev)
     \<and> (backendCalls ev \<noteq> [] \<longleftrightarrow>
          enableLLMSelection (config svc)
          \<and> remainingEntries (getTier1Entries entries) entries \<noteq> []
          \<and> provider svc \<noteq> None)"
proof (cases "enableLLMSelection (config svc)
             \<and> remainingEntries (getTier1Entries entries) entries \<noteq> [] \<and> provider svc \<noteq> None")
  case False
  with getRelevantEntries_no_call [of svc entries P ui rs] show ?thesis by auto
next
  case True
  then obtain p where p: "provider svc = Some p" by auto
  let ?req = "selectionRequest (config svc)
           (remainingEntries (getTier1Entries entries) entries) ui rs"
  show ?thesis
  proof (cases "generateResponse p ?req")
    case (Rejected err)
    with True p getRelevantEntries_rejected [of svc entries p ui rs err P]
    show ?thesis by auto
  next
    case (Resolved response)
    with True p getRelevantEntries_responded [of svc entries p ui rs response P]
    show ?thesis by auto
  qed
qed

text \<open>
  C5. The claim is that with \<^verbatim>\<open>alwaysUseLLM\<close> off, a candidate count below
  \<^verbatim>\<open>llmThreshold\<close> gives no backend call and an empty tier 2. The retrieval reads
  neither field: with the threshold 10, \<^verbatim>\<open>alwaysUseLLM\<close> off and one candidate, it
  sends one request and tier 2 holds the candidate the answer names.
\<close>

theorem C5_threshold_not_applied:
  "\<exists>res ev. getRelevantEntries P
        \<lparr>provider = Some (respondWith ''ID:x1''), config = thresholdConfig\<rparr>
        [loreConcept ''x1'' 0] ui rs = (Resolved res, ev)
     \<and> length (backendCalls ev) = 1
     \<and> map (\<lambda>r. entry_id (entry r)) (tier2 res) = [''x1'']"
proof -
  let ?es = "[loreConcept ''x1'' 0]"
  have t1: "getTier1Entries ?es = []"
    by (simp add: loreConcept_def exampleEntry_def tier1Locals_def checkInjectionMode_def)
  have rem: "remainingEntries [] ?es = ?es"
    by (simp add: remainingEntries_def loreConcept_def exampleEntry_def)
  have ids: "fst (selectedIds P ''ID:x1'') = [''x1'']"
    by (simp add: selectedIds_def jsonStage_def matchJsonArray_def matchIdAt_def isIdChar_def)
  have "\<exists>ev. getRelevantEntries P
        \<lparr>provider = Some (respondWith ''ID:x1''), config = thresholdConfig\<rparr> ?es ui rs
          = (Resolved (makeResult [] (applyMax thresholdConfig
               (mapIdsToEntries (set [''x1'']) ?es)) []), ev)
          \<and> length (backendCalls ev) = 1"
    by (rule getRelevantEntries_respondWith [OF t1 rem _ ids])
      (simp_all add: thresholdConfig_def)
  then obtain ev where
    res: "getRelevantEntries P
        \<lparr>provider = Some (respondWith ''ID:x1''), config = thresholdConfig\<rparr> ?es ui rs
          = (Resolved (makeResult [] (applyMax thresholdConfig
               (mapIdsToEntries (set [''x1'']) ?es)) []), ev)"
    and calls: "length (backendCalls ev) = 1"
    by blast
  let ?res = "makeResult [] (applyMax thresholdConfig
               (mapIdsToEntries (set [''x1'']) ?es)) []"
  have t2: "map (\<lambda>r. entry_id (entry r)) (tier2 ?res) = [''x1'']"
    by (simp add: applyMax_def thresholdConfig_def loreConcept_def exampleEntry_def)
  show ?thesis
    by (rule exI [of _ ?res], rule exI [of _ ev]) (simp only: res calls t2)
qed

subsection \<open>The cap on tier 2\<close>

lemma card_selected_le_length:
  "card (S \<inter> f ` set xs) \<le> length (filter (\<lambda>x. f x \<in> S) xs)"
proof -
  have "S \<inter> f ` set xs = f ` set (filter (\<lambda>x. f x \<in> S) xs)" by auto
  then have "card (S \<inter> f ` set xs) \<le> card (set (filter (\<lambda>x. f x \<in> S) xs))"
    by (simp add: card_image_le)
  also have "\<dots> \<le> length (filter (\<lambda>x. f x \<in> S) xs)" by (rule card_length)
  finally show ?thesis .
qed

lemma entry_mapIdsToEntries:
  "map entry (mapIdsToEntries idSet es) = filter (\<lambda>e. entry_id e \<in> idSet) es"
  by (induction es) simp_all

text \<open>
  C6. With \<^verbatim>\<open>maxTier3Entries = N > 0\<close> and an answer that selects more than \<open>N\<close>
  ids of candidates, tier 2 has exactly \<open>N\<close> records: the first \<open>N\<close> selected candidates
  in the order of the candidate list, whatever their priorities. The sort of \<^verbatim>\<open>all\<close>
  comes after and only permutes tier 1 and the capped tier 2.
\<close>

theorem C6_truncation_to_cap:
  fixes N :: nat
  assumes en: "enableLLMSelection (config svc)"
    and pr: "provider svc = Some p"
    and resp: "generateResponse p (selectionRequest (config svc)
           (remainingEntries (getTier1Entries entries) entries) ui rs) = Resolved response"
    and ids: "fst (selectedIds P (content response)) = ids"
    and cap: "maxTier3Entries (config svc) = int N" and pos: "0 < N"
    and more: "N < card (set ids
                  \<inter> entry_id ` set (remainingEntries (getTier1Entries entries) entries))"
  shows "\<exists>res ev. getRelevantEntries P svc entries ui rs = (Resolved res, ev)
     \<and> length (tier2 res) = N
     \<and> map entry (tier2 res)
         = take N (filter (\<lambda>e. entry_id e \<in> set ids)
                    (remainingEntries (getTier1Entries entries) entries))
     \<and> mset (all res) = mset (tier1 res) + mset (tier2 res)"
proof -
  let ?t1 = "getTier1Entries entries"
  let ?rem = "remainingEntries ?t1 entries"
  let ?sel = "mapIdsToEntries (set ids) ?rem"
  let ?res = "makeResult ?t1 (applyMax (config svc) ?sel) []"
  have "?rem \<noteq> []"
  proof
    assume "?rem = []"
    with more show False by simp
  qed
  from getRelevantEntries_responded [OF en this pr resp, of P] ids
  obtain ev where res: "getRelevantEntries P svc entries ui rs = (Resolved ?res, ev)"
    by auto
  have "N < length (filter (\<lambda>e. entry_id e \<in> set ids) ?rem)"
    using more card_selected_le_length [of "set ids" entry_id ?rem] by simp
  then have long: "N < length ?sel"
    by (simp add: mapIdsToEntries_map_filter)
  have t2: "tier2 ?res = take N ?sel"
    using cap pos by (simp add: applyMax_def)
  have a: "length (tier2 ?res) = N"
    unfolding t2 using long by simp
  have b: "map entry (tier2 ?res) = take N (filter (\<lambda>e. entry_id e \<in> set ids) ?rem)"
    unfolding t2 by (simp add: take_map [symmetric] entry_mapIdsToEntries)
  have c: "mset (all ?res) = mset (tier1 ?res) + mset (tier2 ?res)"
    by (simp add: all_makeResult jsSort_sort_key)
  from res a b c show ?thesis
    by (intro exI [of _ ?res] exI [of _ ev] conjI)
qed

theorem C6_truncation_to_cap_witness:
  "\<exists>res ev. getRelevantEntries emptyArrayParser
        (serviceWith (Some (respondWith ''ID:a ID:b ID:c'')) 2)
        [loreConcept ''a'' 0, loreConcept ''b'' 10, loreConcept ''c'' 30] [] []
        = (Resolved res, ev)
     \<and> length (tier2 res) = 2
     \<and> map entry (tier2 res) = [loreConcept ''a'' 0, loreConcept ''b'' 10]"
proof -
  let ?svc = "serviceWith (Some (respondWith ''ID:a ID:b ID:c'')) 2"
  let ?es = "[loreConcept ''a'' 0, loreConcept ''b'' 10, loreConcept ''c'' 30]"
  have t1: "getTier1Entries ?es = []"
    by (simp add: loreConcept_def exampleEntry_def tier1Locals_def checkInjectionMode_def)
  have rem: "remainingEntries (getTier1Entries ?es) ?es = ?es"
    unfolding t1 by (simp add: remainingEntries_def loreConcept_def exampleEntry_def)
  have h1: "enableLLMSelection (config ?svc)"
    by (simp add: serviceWith_def DEFAULT_ENTRY_RETRIEVAL_CONFIG_def)
  have h2: "provider ?svc = Some (respondWith ''ID:a ID:b ID:c'')"
    by (simp add: serviceWith_def)
  have h3: "generateResponse (respondWith ''ID:a ID:b ID:c'') (selectionRequest (config ?svc)
           (remainingEntries (getTier1Entries ?es) ?es) [] [])
          = Resolved \<lparr>content = ''ID:a ID:b ID:c''\<rparr>"
    by (simp add: respondWith_def)
  have h4: "fst (selectedIds emptyArrayParser (content \<lparr>content = ''ID:a ID:b ID:c''\<rparr>))
              = [''a'', ''b'', ''c'']"
    by (simp add: selectedIds_def jsonStage_def matchJsonArray_def matchIdAt_def isIdChar_def)
  have h5: "maxTier3Entries (config ?svc) = int 2"
    by (simp add: serviceWith_def)
  have h6: "0 < (2::nat)" by simp
  have h7: "2 < card (set [''a'', ''b'', ''c'']
                  \<inter> entry_id ` set (remainingEntries (getTier1Entries ?es) ?es))"
    unfolding rem by (simp add: loreConcept_def exampleEntry_def)
  from C6_truncation_to_cap [OF h1 h2 h3 h4 h5 h6 h7]
  obtain res ev where
    res: "getRelevantEntries emptyArrayParser ?svc ?es [] [] = (Resolved res, ev)"
    and len: "length (tier2 res) = 2"
    and ord: "map entry (tier2 res)
         = take 2 (filter (\<lambda>e. entry_id e \<in> set [''a'', ''b'', ''c''])
                    (remainingEntries (getTier1Entries ?es) ?es))"
    by auto
  have "take 2 (filter (\<lambda>e. entry_id e \<in> set [''a'', ''b'', ''c''])
                    (remainingEntries (getTier1Entries ?es) ?es))
          = [loreConcept ''a'' 0, loreConcept ''b'' 10]"
    unfolding rem by (simp add: loreConcept_def exampleEntry_def)
  with ord have ord': "map entry (tier2 res) = [loreConcept ''a'' 0, loreConcept ''b'' 10]"
    by simp
  show ?thesis
    by (rule exI [of _ res], rule exI [of _ ev]) (simp only: res len ord')
qed

subsection \<open>An empty array in the answer\<close>

lemma selectedIds_empty_array:
  assumes "matchJsonArray text = Some m" and "P m = Some (JArray [])"
  shows "fst (selectedIds P text) = scanIds text"
  using assms by (simp add: selectedIds_def jsonStage_def)

lemma applyMax_nonempty: "xs \<noteq> [] \<Longrightarrow> applyMax cfg xs \<noteq> []"
  by (cases xs) (auto simp: applyMax_def take_Cons' )

text \<open>
  C10. When the first bracketed text of the answer parses to the empty array, the list
  of selected ids is empty and the scan for \<^verbatim>\<open>ID:\<close> tags runs over the whole answer:
  the selected ids are the ids the scan finds, and if one of them is the id of a
  candidate, tier 2 is not empty.
\<close>

theorem C10_empty_array_then_id_scan:
  assumes en: "enableLLMSelection (config svc)"
    and pr: "provider svc = Some p"
    and resp: "generateResponse p (selectionRequest (config svc)
           (remainingEntries (getTier1Entries entries) entries) ui rs) = Resolved response"
    and m: "matchJsonArray (content response) = Some m"
    and parse: "P m = Some (JArray [])"
    and c: "c \<in> set (remainingEntries (getTier1Entries entries) entries)"
    and tag: "entry_id c \<in> set (scanIds (content response))"
  shows "\<exists>res ev. getRelevantEntries P svc entries ui rs = (Resolved res, ev)
     \<and> fst (selectedIds P (content response)) = scanIds (content response)
     \<and> tier2 res \<noteq> []"
proof -
  let ?t1 = "getTier1Entries entries"
  let ?rem = "remainingEntries ?t1 entries"
  let ?sel = "mapIdsToEntries (set (scanIds (content response))) ?rem"
  let ?res = "makeResult ?t1 (applyMax (config svc) ?sel) []"
  have ids: "fst (selectedIds P (content response)) = scanIds (content response)"
    using m parse by (rule selectedIds_empty_array)
  from c have "?rem \<noteq> []" by auto
  from getRelevantEntries_responded [OF en this pr resp, of P] ids
  obtain ev where res: "getRelevantEntries P svc entries ui rs = (Resolved ?res, ev)"
    by auto
  from c tag have "c \<in> set (filter (\<lambda>e. entry_id e \<in> set (scanIds (content response))) ?rem)"
    by simp
  then have "?sel \<noteq> []"
    by (auto simp: mapIdsToEntries_map_filter filter_empty_conv)
  then have ne: "tier2 ?res \<noteq> []"
    by (simp add: applyMax_nonempty)
  from res ids ne show ?thesis
    by (intro exI [of _ ?res] exI [of _ ev] conjI)
qed

theorem C10_empty_array_then_id_scan_witness:
  "matchJsonArray ''[] ID:x1'' = Some ''[]''
   \<and> emptyArrayParser ''[]'' = Some (JArray [])
   \<and> (\<exists>res ev. getRelevantEntries emptyArrayParser
          (serviceWith (Some (respondWith ''[] ID:x1'')) 0) [loreConcept ''x1'' 0] [] []
          = (Resolved res, ev)
        \<and> fst (selectedIds emptyArrayParser ''[] ID:x1'') = [''x1'']
        \<and> tier2 res \<noteq> [])"
proof -
  let ?svc = "serviceWith (Some (respondWith ''[] ID:x1'')) 0"
  let ?es = "[loreConcept ''x1'' 0]"
  have t1: "getTier1Entries ?es = []"
    by (simp add: loreConcept_def exampleEntry_def tier1Locals_def checkInjectionMode_def)
  have rem: "remainingEntries (getTier1Entries ?es) ?es = ?es"
    unfolding t1 by (simp add: remainingEntries_def loreConcept_def exampleEntry_def)
  have scan: "scanIds ''[] ID:x1'' = [''x1'']"
    by (simp add: matchIdAt_def isIdChar_def)
  have h1: "enableLLMSelection (config ?svc)"
    by (simp add: serviceWith_def DEFAULT_ENTRY_RETRIEVAL_CONFIG_def)
  have h2: "provider ?svc = Some (respondWith ''[] ID:x1'')"
    by (simp add: serviceWith_def)
  have h3: "generateResponse (respondWith ''[] ID:x1'') (selectionRequest (config ?svc)
           (remainingEntries (getTier1Entries ?es) ?es) [] [])
          = Resolved \<lparr>content = ''[] ID:x1''\<rparr>"
    by (simp add: respondWith_def)
  have h4: "matchJsonArray (content \<lparr>content = ''[] ID:x1''\<rparr>) = Some ''[]''"
    by (simp add: matchJsonArray_def)
  have h5: "emptyArrayParser ''[]'' = Some (JArray [])"
    by (simp add: emptyArrayParser_def)
  have h6: "loreConcept ''x1'' 0 \<in> set (remainingEntries (getTier1Entries ?es) ?es)"
    unfolding rem by simp
  have h7: "entry_id (loreConcept ''x1'' 0) \<in> set (scanIds (content \<lparr>content = ''[] ID:x1''\<rparr>))"
    unfolding LLMResponse.select_convs scan
    by (simp add: loreConcept_def exampleEntry_def)
  from C10_empty_array_then_id_scan [where P = emptyArrayParser, OF h1 h2 h3 h4 h5 h6 h7]
  obtain res ev where
    res: "getRelevantEntries emptyArrayParser ?svc ?es [] [] = (Resolved res, ev)"
    and ids: "fst (selectedIds emptyArrayParser ''[] ID:x1'') = scanIds ''[] ID:x1''"
    and ne: "tier2 res \<noteq> []"
    by auto
  from h4 have m: "matchJsonArray ''[] ID:x1'' = Some ''[]''" by simp
  from ids scan have ids': "fst (selectedIds emptyArrayParser ''[] ID:x1'') = [''x1'']" by simp
  have "\<exists>res ev. getRelevantEntries emptyArrayParser ?svc ?es [] [] = (Resolved res, ev)
        \<and> fst (selectedIds emptyArrayParser ''[] ID:x1'') = [''x1'']
        \<and> tier2 res \<noteq> []"
    by (rule exI [of _ res], rule exI [of _ ev]) (simp only: res ids' ne simp_thms)
  with m h5 show ?thesis by (intro conjI)
qed

subsection \<open>The scan for id tags\<close>

lemma isIdChar_I_D: "isIdChar (CHR ''I'')" "isIdChar (CHR ''D'')" "\<not> isIdChar (CHR '':'')"
  by (simp_all add: isIdChar_def)

lemma takeWhile_run:
  assumes "\<forall>ch \<in> set i. isIdChar ch" and "post = [] \<or> \<not> isIdChar (hd post)"
  shows "takeWhile isIdChar (i @ post) = i" and "dropWhile isIdChar (i @ post) = post"
proof -
  from assms(2) have t: "takeWhile isIdChar post = []" and d: "dropWhile isIdChar post = post"
    by (cases post; simp)+
  from assms(1) show "takeWhile isIdChar (i @ post) = i"
    by (simp add: t)
  from assms(1) show "dropWhile isIdChar (i @ post) = post"
    by (simp add: d)
qed

lemma matchIdAt_tag:
  assumes "i \<noteq> []" and "\<forall>ch \<in> set i. isIdChar ch" and "post = [] \<or> \<not> isIdChar (hd post)"
  shows "matchIdAt (''ID:'' @ i @ post) = Some (i, post)"
  using assms(1) takeWhile_run [OF assms(2,3)] by (simp add: matchIdAt_def)

lemma dropWhile_keeps_last:
  assumes "xs \<noteq> []" and "\<not> P (last xs)"
  shows "dropWhile P xs \<noteq> []" and "last (dropWhile P xs) = last xs"
proof -
  have "dropWhile P xs \<noteq> [] \<and> last (dropWhile P xs) = last xs"
    using assms by (induction xs) (auto split: if_splits)
  then show "dropWhile P xs \<noteq> []" and "last (dropWhile P xs) = last xs" by simp_all
qed

lemma tag_inside_prefix:
  assumes "pre \<noteq> []" and "\<not> isIdChar (last pre)" and "last pre \<noteq> CHR '':''"
    and "take 3 (pre @ t) = ''ID:''"
  shows "\<exists>pre2. pre = ''ID:'' @ pre2 \<and> pre2 \<noteq> []"
proof (cases pre)
  case Nil
  with assms(1) show ?thesis by simp
next
  case a: (Cons a as)
  show ?thesis
  proof (cases as)
    case Nil
    with a assms(2,4) isIdChar_I_D show ?thesis by (cases t) auto
  next
    case b: (Cons b bs)
    show ?thesis
    proof (cases bs)
      case Nil
      with a b assms(2,4) isIdChar_I_D show ?thesis by (cases t) auto
    next
      case c: (Cons c cs)
      with a b assms(3,4) show ?thesis by (cases cs) auto
    qed
  qed
qed

lemma scanIds_finds_delimited_tag:
  assumes i: "i \<noteq> []" "\<forall>ch \<in> set i. isIdChar ch"
    and post: "post = [] \<or> \<not> isIdChar (hd post)"
    and pre: "pre = [] \<or> (\<not> isIdChar (last pre) \<and> last pre \<noteq> CHR '':'')"
  shows "i \<in> set (scanIds (pre @ ''ID:'' @ i @ post))"
  using pre
proof (induction pre rule: length_induct)
  case (1 pre)
  let ?t = "''ID:'' @ i @ post"
  show ?case
  proof (cases pre)
    case Nil
    have "scanIds ?t = i # scanIds post"
      using matchIdAt_tag [OF i post] by simp
    with Nil show ?thesis by simp
  next
    case (Cons c pre')
    with "1.prems" have last: "\<not> isIdChar (last pre)" "last pre \<noteq> CHR '':''" by auto
    show ?thesis
    proof (cases "matchIdAt (pre @ ?t)")
      case None
      from Cons last have "pre' = [] \<or> (\<not> isIdChar (last pre') \<and> last pre' \<noteq> CHR '':'')"
        by (auto split: if_splits)
      moreover from Cons have "length pre' < length pre" by simp
      ultimately have "i \<in> set (scanIds (pre' @ ?t))"
        using "1.IH" by blast
      moreover from None Cons have "scanIds (pre @ ?t) = scanIds (pre' @ ?t)" by simp
      ultimately show ?thesis by simp
    next
      case (Some m)
      then have tk: "take 3 (pre @ ?t) = ''ID:''"
        and m: "m = (takeWhile isIdChar (drop 3 (pre @ ?t)), dropWhile isIdChar (drop 3 (pre @ ?t)))"
        by (auto simp: matchIdAt_def split: if_splits)
      from Cons have "pre \<noteq> []" by simp
      from tag_inside_prefix [OF this last tk]
      obtain pre2 where pre2: "pre = ''ID:'' @ pre2" "pre2 \<noteq> []" by blast
      with last have l2: "\<not> isIdChar (last pre2)" "last pre2 \<noteq> CHR '':''" by simp_all
      let ?pre3 = "dropWhile isIdChar pre2"
      from pre2(2) l2(1) have "last pre2 \<in> set pre2" "\<not> isIdChar (last pre2)" by simp_all
      then have "dropWhile isIdChar (pre2 @ ?t) = ?pre3 @ ?t"
        by (rule dropWhile_append1)
      with pre2(1) have rest: "dropWhile isIdChar (drop 3 (pre @ ?t)) = ?pre3 @ ?t" by simp
      from dropWhile_keeps_last [of pre2 isIdChar, OF pre2(2) l2(1)] l2
      have "?pre3 = [] \<or> (\<not> isIdChar (last ?pre3) \<and> last ?pre3 \<noteq> CHR '':'')" by simp
      moreover have "length ?pre3 < length pre"
        using length_dropWhile_le [of isIdChar pre2] pre2(1) by simp
      ultimately have "i \<in> set (scanIds (?pre3 @ ?t))"
        using "1.IH" by blast
      moreover from Some m rest Cons
      have "scanIds (pre @ ?t) = takeWhile isIdChar (drop 3 (pre @ ?t)) # scanIds (?pre3 @ ?t)"
        by simp
      ultimately show ?thesis by simp
    qed
  qed
qed

lemma selectedIds_fallback:
  assumes "fst (jsonStage P text) = []"
  shows "fst (selectedIds P text) = scanIds text"
  using assms by (cases "jsonStage P text") (simp add: selectedIds_def)

lemma applyMax_under_cap:
  assumes "maxTier3Entries cfg \<le> 0 \<or> length xs \<le> nat (maxTier3Entries cfg)"
  shows "applyMax cfg xs = xs"
  using assms by (auto simp: applyMax_def)

lemma tier2Ids_respondWith:
  assumes "getTier1Entries entries = t1"
    and "remainingEntries t1 entries = rem"
    and "rem \<noteq> []"
    and "fst (selectedIds P text) = ids"
    and "enableLLMSelection cfg"
  shows "tier2Ids (getRelevantEntries P \<lparr>provider = Some (respondWith text), config = cfg\<rparr>
                     entries ui rs)
           = Some (map entry_id (take (if maxTier3Entries cfg > 0 then nat (maxTier3Entries cfg)
                                        else length rem)
                                   (filter (\<lambda>e. entry_id e \<in> set ids) rem)))"
proof -
  from getRelevantEntries_respondWith [OF assms, of ui rs]
  obtain ev where "getRelevantEntries P \<lparr>provider = Some (respondWith text), config = cfg\<rparr>
                 entries ui rs
               = (Resolved (makeResult t1 (applyMax cfg (mapIdsToEntries (set ids) rem)) []), ev)"
    by blast
  moreover have "map (\<lambda>r. entry_id (entry r)) (applyMax cfg (mapIdsToEntries (set ids) rem))
      = map entry_id (take (if maxTier3Entries cfg > 0 then nat (maxTier3Entries cfg)
                            else length rem)
                        (filter (\<lambda>e. entry_id e \<in> set ids) rem))"
  proof -
    have "map (\<lambda>r. entry_id (entry r)) (take n (mapIdsToEntries (set ids) rem))
            = map entry_id (take n (filter (\<lambda>e. entry_id e \<in> set ids) rem))" for n
      by (simp add: mapIdsToEntries_map_filter take_map comp_def)
    moreover have "take (length rem) (filter (\<lambda>e. entry_id e \<in> set ids) rem)
            = filter (\<lambda>e. entry_id e \<in> set ids) rem"
      by simp
    moreover have "map (\<lambda>r. entry_id (entry r)) (mapIdsToEntries (set ids) rem)
            = map entry_id (filter (\<lambda>e. entry_id e \<in> set ids) rem)"
      by (simp add: mapIdsToEntries_map_filter comp_def)
    ultimately show ?thesis by (simp add: applyMax_def)
  qed
  ultimately show ?thesis by (simp add: tier2Ids_def)
qed

text \<open>
  C7, as stated, fails. In each of the five retrievals below the first parsing stage
  yields no id and the answer contains \<^verbatim>\<open>ID:\<close> followed by the id of a candidate, yet
  the candidate is not in tier 2: the id has a character outside \<^verbatim>\<open>[a-zA-Z0-9_-]\<close>;
  the id is followed by a character of the class; the tag follows another \<^verbatim>\<open>ID:\<close>;
  the tag follows the id of another tag with nothing between; the cap
  \<^verbatim>\<open>maxTier3Entries = 1\<close> cuts the second of two recovered ids.
\<close>

theorem C7_id_tag_counterexample:
  "fst (jsonStage emptyArrayParser ''ID:x.1'') = []
   \<and> ''ID:x.1'' = ''ID:'' @ entry_id (loreConcept ''x.1'' 0)
   \<and> tier2Ids (getRelevantEntries emptyArrayParser (serviceWith (Some (respondWith ''ID:x.1'')) 0)
        [loreConcept ''x.1'' 0] [] []) = Some []
   \<and> fst (jsonStage emptyArrayParser ''ID:x1y'') = []
   \<and> ''ID:x1y'' = ''ID:'' @ entry_id (loreConcept ''x1'' 0) @ ''y''
   \<and> tier2Ids (getRelevantEntries emptyArrayParser (serviceWith (Some (respondWith ''ID:x1y'')) 0)
        [loreConcept ''x1'' 0] [] []) = Some []
   \<and> fst (jsonStage emptyArrayParser ''ID:ID:x1'') = []
   \<and> ''ID:ID:x1'' = ''ID:'' @ ''ID:'' @ entry_id (loreConcept ''x1'' 0)
   \<and> tier2Ids (getRelevantEntries emptyArrayParser (serviceWith (Some (respondWith ''ID:ID:x1'')) 0)
        [loreConcept ''x1'' 0] [] []) = Some []
   \<and> fst (jsonStage emptyArrayParser ''ID:aID:x1'') = []
   \<and> ''ID:aID:x1'' = ''ID:a'' @ ''ID:'' @ entry_id (loreConcept ''x1'' 0)
   \<and> tier2Ids (getRelevantEntries emptyArrayParser (serviceWith (Some (respondWith ''ID:aID:x1'')) 0)
        [loreConcept ''x1'' 0] [] []) = Some []
   \<and> fst (jsonStage emptyArrayParser ''ID:a ID:b'') = []
   \<and> ''ID:a ID:b'' = ''ID:a '' @ ''ID:'' @ entry_id (loreConcept ''b'' 0)
   \<and> tier2Ids (getRelevantEntries emptyArrayParser (serviceWith (Some (respondWith ''ID:a ID:b'')) 1)
        [loreConcept ''a'' 0, loreConcept ''b'' 0] [] []) = Some [''a'']"
proof -
  have t1: "getTier1Entries [loreConcept i 0] = []" for i
    by (simp add: loreConcept_def exampleEntry_def tier1Locals_def checkInjectionMode_def)
  have rem: "remainingEntries [] [loreConcept i 0] = [loreConcept i 0]" for i
    by (simp add: remainingEntries_def loreConcept_def exampleEntry_def)
  have t1': "getTier1Entries [loreConcept ''a'' 0, loreConcept ''b'' 0] = []"
    by (simp add: loreConcept_def exampleEntry_def tier1Locals_def checkInjectionMode_def)
  have rem': "remainingEntries [] [loreConcept ''a'' 0, loreConcept ''b'' 0]
                = [loreConcept ''a'' 0, loreConcept ''b'' 0]"
    by (simp add: remainingEntries_def loreConcept_def exampleEntry_def)
  have en: "enableLLMSelection (DEFAULT_ENTRY_RETRIEVAL_CONFIG\<lparr>maxTier3Entries := n\<rparr>)" for n
    by (simp add: DEFAULT_ENTRY_RETRIEVAL_CONFIG_def)
  have j: "fst (jsonStage emptyArrayParser ''ID:x.1'') = []"
    "fst (jsonStage emptyArrayParser ''ID:x1y'') = []"
    "fst (jsonStage emptyArrayParser ''ID:ID:x1'') = []"
    "fst (jsonStage emptyArrayParser ''ID:aID:x1'') = []"
    "fst (jsonStage emptyArrayParser ''ID:a ID:b'') = []"
    by (simp_all add: jsonStage_def matchJsonArray_def)
  have s: "fst (selectedIds emptyArrayParser ''ID:x.1'') = [''x'']"
    "fst (selectedIds emptyArrayParser ''ID:x1y'') = [''x1y'']"
    "fst (selectedIds emptyArrayParser ''ID:ID:x1'') = [''ID'']"
    "fst (selectedIds emptyArrayParser ''ID:aID:x1'') = [''aID'']"
    "fst (selectedIds emptyArrayParser ''ID:a ID:b'') = [''a'', ''b'']"
    by (simp_all add: selectedIds_fallback j matchIdAt_def isIdChar_def)
  have e: "''ID:x.1'' = ''ID:'' @ entry_id (loreConcept ''x.1'' 0)"
    "''ID:x1y'' = ''ID:'' @ entry_id (loreConcept ''x1'' 0) @ ''y''"
    "''ID:ID:x1'' = ''ID:'' @ ''ID:'' @ entry_id (loreConcept ''x1'' 0)"
    "''ID:aID:x1'' = ''ID:a'' @ ''ID:'' @ entry_id (loreConcept ''x1'' 0)"
    "''ID:a ID:b'' = ''ID:a '' @ ''ID:'' @ entry_id (loreConcept ''b'' 0)"
    by (simp_all add: loreConcept_def exampleEntry_def)
  have r1: "tier2Ids (getRelevantEntries emptyArrayParser (serviceWith (Some (respondWith ''ID:x.1'')) 0)
        [loreConcept ''x.1'' 0] [] []) = Some []"
    unfolding serviceWith_def
    by (simp add: tier2Ids_respondWith [OF t1 rem _ s(1) en])
      (simp add: loreConcept_def exampleEntry_def)
  have r2: "tier2Ids (getRelevantEntries emptyArrayParser (serviceWith (Some (respondWith ''ID:x1y'')) 0)
        [loreConcept ''x1'' 0] [] []) = Some []"
    unfolding serviceWith_def
    by (simp add: tier2Ids_respondWith [OF t1 rem _ s(2) en])
      (simp add: loreConcept_def exampleEntry_def)
  have r3: "tier2Ids (getRelevantEntries emptyArrayParser (serviceWith (Some (respondWith ''ID:ID:x1'')) 0)
        [loreConcept ''x1'' 0] [] []) = Some []"
    unfolding serviceWith_def
    by (simp add: tier2Ids_respondWith [OF t1 rem _ s(3) en])
      (simp add: loreConcept_def exampleEntry_def)
  have r4: "tier2Ids (getRelevantEntries emptyArrayParser (serviceWith (Some (respondWith ''ID:aID:x1'')) 0)
        [loreConcept ''x1'' 0] [] []) = Some []"
    unfolding serviceWith_def
    by (simp add: tier2Ids_respondWith [OF t1 rem _ s(4) en])
      (simp add: loreConcept_def exampleEntry_def)
  have r5: "tier2Ids (getRelevantEntries emptyArrayParser (serviceWith (Some (respondWith ''ID:a ID:b'')) 1)
        [loreConcept ''a'' 0, loreConcept ''b'' 0] [] []) = Some [''a'']"
    unfolding serviceWith_def
    by (simp add: tier2Ids_respondWith [OF t1' rem' _ s(5) en])
      (simp add: loreConcept_def exampleEntry_def DEFAULT_ENTRY_RETRIEVAL_CONFIG_def)
  from j e r1 r2 r3 r4 r5 show ?thesis by (intro conjI)
qed

text \<open>
  C7, amended. When the first parsing stage yields no id, a candidate is recovered into
  tier 2 by the scan if its id is not empty and has only characters of
  \<^verbatim>\<open>[a-zA-Z0-9_-]\<close>, the answer contains \<^verbatim>\<open>ID:\<close> followed by the id, the tag is at the
  start of the answer or after a character that is neither of the class nor a colon, the
  id is followed by the end of the answer or by a character outside the class, and the
  cap \<^verbatim>\<open>maxTier3Entries\<close> is off or not below the number of selected candidates.
\<close>

theorem C7_delimited_id_tags_recovered:
  assumes en: "enableLLMSelection (config svc)"
    and pr: "provider svc = Some p"
    and resp: "generateResponse p (selectionRequest (config svc)
           (remainingEntries (getTier1Entries entries) entries) ui rs) = Resolved response"
    and nojson: "fst (jsonStage P (content response)) = []"
    and c: "c \<in> set (remainingEntries (getTier1Entries entries) entries)"
    and tagged: "content response = pre @ ''ID:'' @ entry_id c @ post"
    and idc: "entry_id c \<noteq> []" "\<forall>ch \<in> set (entry_id c). isIdChar ch"
    and before: "pre = [] \<or> (\<not> isIdChar (last pre) \<and> last pre \<noteq> CHR '':'')"
    and after: "post = [] \<or> \<not> isIdChar (hd post)"
    and nocap: "maxTier3Entries (config svc) \<le> 0
                \<or> length (filter (\<lambda>e. entry_id e \<in> set (scanIds (content response)))
                            (remainingEntries (getTier1Entries entries) entries))
                    \<le> nat (maxTier3Entries (config svc))"
  shows "\<exists>res ev. getRelevantEntries P svc entries ui rs = (Resolved res, ev)
     \<and> entry_id c \<in> set (scanIds (content response))
     \<and> c \<in> entry ` set (tier2 res)"
proof -
  let ?t1 = "getTier1Entries entries"
  let ?rem = "remainingEntries ?t1 entries"
  let ?sel = "mapIdsToEntries (set (scanIds (content response))) ?rem"
  let ?res = "makeResult ?t1 (applyMax (config svc) ?sel) []"
  have ids: "fst (selectedIds P (content response)) = scanIds (content response)"
    using nojson by (rule selectedIds_fallback)
  from c have "?rem \<noteq> []" by auto
  from getRelevantEntries_responded [OF en this pr resp, of P] ids
  obtain ev where res: "getRelevantEntries P svc entries ui rs = (Resolved ?res, ev)"
    by auto
  have tag: "entry_id c \<in> set (scanIds (content response))"
    unfolding tagged by (rule scanIds_finds_delimited_tag [OF idc after before])
  have "length ?sel = length (filter (\<lambda>e. entry_id e \<in> set (scanIds (content response))) ?rem)"
    by (simp add: mapIdsToEntries_map_filter)
  with nocap have "applyMax (config svc) ?sel = ?sel"
    by (simp add: applyMax_under_cap)
  then have "set (map entry (tier2 ?res))
               = set (filter (\<lambda>e. entry_id e \<in> set (scanIds (content response))) ?rem)"
    by (simp only: tier2_makeResult entry_mapIdsToEntries)
  with c tag have "c \<in> set (map entry (tier2 ?res))" by simp
  then have sel: "c \<in> entry ` set (tier2 ?res)" by simp
  from res tag sel show ?thesis
    by (intro exI [of _ ?res] exI [of _ ev] conjI)
qed

theorem C7_delimited_id_tags_recovered_witness:
  "\<exists>res ev. getRelevantEntries emptyArrayParser
        (serviceWith (Some (respondWith ''Relevant: ID:x1, ID:x2.'')) 0)
        [loreConcept ''x1'' 0, loreConcept ''x2'' 0] [] [] = (Resolved res, ev)
     \<and> entry_id (loreConcept ''x1'' 0) \<in> set (scanIds ''Relevant: ID:x1, ID:x2.'')
     \<and> loreConcept ''x1'' 0 \<in> entry ` set (tier2 res)"
proof -
  let ?text = "''Relevant: ID:x1, ID:x2.''"
  let ?svc = "serviceWith (Some (respondWith ?text)) 0"
  let ?es = "[loreConcept ''x1'' 0, loreConcept ''x2'' 0]"
  have t1: "getTier1Entries ?es = []"
    by (simp add: loreConcept_def exampleEntry_def tier1Locals_def checkInjectionMode_def)
  have rem: "remainingEntries (getTier1Entries ?es) ?es = ?es"
    unfolding t1 by (simp add: remainingEntries_def loreConcept_def exampleEntry_def)
  have h1: "enableLLMSelection (config ?svc)"
    by (simp add: serviceWith_def DEFAULT_ENTRY_RETRIEVAL_CONFIG_def)
  have h2: "provider ?svc = Some (respondWith ?text)"
    by (simp add: serviceWith_def)
  have h3: "generateResponse (respondWith ?text) (selectionRequest (config ?svc)
           (remainingEntries (getTier1Entries ?es) ?es) [] [])
          = Resolved \<lparr>content = ?text\<rparr>"
    by (simp add: respondWith_def)
  have h4: "fst (jsonStage emptyArrayParser (content \<lparr>content = ?text\<rparr>)) = []"
    by (simp add: jsonStage_def matchJsonArray_def)
  have h5: "loreConcept ''x1'' 0 \<in> set (remainingEntries (getTier1Entries ?es) ?es)"
    unfolding rem by simp
  have h6: "content \<lparr>content = ?text\<rparr>
              = ''Relevant: '' @ ''ID:'' @ entry_id (loreConcept ''x1'' 0) @ '', ID:x2.''"
    by (simp add: loreConcept_def exampleEntry_def)
  have h7: "entry_id (loreConcept ''x1'' 0) \<noteq> []"
    "\<forall>ch \<in> set (entry_id (loreConcept ''x1'' 0)). isIdChar ch"
    by (simp_all add: loreConcept_def exampleEntry_def isIdChar_def)
  have h8: "''Relevant: '' = [] \<or> (\<not> isIdChar (last ''Relevant: '') \<and> last ''Relevant: '' \<noteq> CHR '':'')"
    by (simp add: isIdChar_def)
  have h9: "'', ID:x2.'' = [] \<or> \<not> isIdChar (hd '', ID:x2.'')"
    by (simp add: isIdChar_def)
  have h10: "maxTier3Entries (config ?svc) \<le> 0
                \<or> length (filter (\<lambda>e. entry_id e \<in> set (scanIds (content \<lparr>content = ?text\<rparr>)))
                            (remainingEntries (getTier1Entries ?es) ?es))
                    \<le> nat (maxTier3Entries (config ?svc))"
    by (simp add: serviceWith_def)
  from C7_delimited_id_tags_recovered
    [where P = emptyArrayParser, OF h1 h2 h3 h4 h5 h6 h7 h8 h9 h10]
  show ?thesis by simp
qed

end
